theory Spec2Isabelle
  imports Complex_Main
begin

section \<open>Network simulation: data model\<close>

text \<open>
  The repository holds two network simulation modules with the same exported names:
  \<^verbatim>\<open>src/commands/main/terminal/network.js\<close> and \<^verbatim>\<open>src/unnamed/part_001\<close>. Both are
  embedded; the definitions of the second carry the suffix \<open>_part001\<close>.

  JavaScript numbers are modelled as exact reals: \<^verbatim>\<open>Math.round\<close> is \<^const>\<open>round\<close>
  (\<open>\<lfloor>x + 1/2\<rfloor>\<close>), \<^verbatim>\<open>Math.ceil\<close> is \<^const>\<open>ceiling\<close>. The program computes in doubles, whose
  result can fall on the other side of a rounding tie or of a threshold; the theorem
  on the value of a duration therefore fixes it only up to a margin. Division by a zero speed
  (\<^verbatim>\<open>Infinity\<close> in JavaScript) is outside the model; the theorems that depend on it
  assume a positive speed, as the setter \<^verbatim>\<open>netset\<close> enforces. Each call of
  \<^verbatim>\<open>Math.random()\<close> is a parameter: \<open>r\<close> is the jitter draw and \<open>w i\<close> is the draw
  of loop iteration \<open>i\<close>.
\<close>

record config =
  speed :: real
  latency :: real
  packetLoss :: real
  jitter :: real
  enabled :: bool

definition DEFAULT_CONFIG :: config where
  "DEFAULT_CONFIG = \<lparr>speed = 500, latency = 20, packetLoss = 0, jitter = 0, enabled = True\<rparr>"

definition PACKAGE_SIZES :: "(string \<times> real) list" where
  "PACKAGE_SIZES =
     [(''echo'', 472), (''edit'', 8400), (''test'', 407), (''edit-file'', 8400),
      (''happyphone'', 413)]"

text \<open>\<^verbatim>\<open>PACKAGE_SIZES[packageName] || 1024\<close>\<close>

definition table_size :: "string \<Rightarrow> real" where
  "table_size packageName =
     (case map_of PACKAGE_SIZES packageName of
        Some s \<Rightarrow> if s = 0 then 1024 else s
      | None \<Rightarrow> 1024)"

text \<open>
  The text of a message is a template filled with numbers through \<^verbatim>\<open>toFixed\<close>,
  \<^verbatim>\<open>formatSize\<close> and \<^verbatim>\<open>formatTime\<close>. A message is kept as its template together with
  the values it is rendered from; the rendering of numbers as text is not modelled.
\<close>

datatype jsval = Undefined | Str string

datatype message =
    DownloadedInstantly real
  | DownloadedIn real real
  | Downloading string real real real
  | SystemUpdatedBranch jsval string
  | SystemUpdated jsval
  | PackageInstalledSuccessfully string
  | InstalledPackage string
  | StartedUpdate jsval message
  | StartedDownloading string message
  | MissingSubcommand
  | InvalidSubcommand
  | UnknownBranch string
  | AlreadyUpToDate string
  | StartingDowngrade string string string string message
  | StartingSwitch string string message
  | StartingUpgrade string string message
  | UsageInstall
  | AlreadyInstalled string
  | RequiresVersion string string string
  | NotOnBranch string string
  | PackageNotFound string
  | UsageRemove
  | RemoveNotFound string
  | RemovedPackage string
  | NoDownloadInProgress string
  | ReadOnlyReport string

record step =
  progress :: real
  message :: message
  wait :: real
  complete :: bool

record download_state =
  steps :: "step list"
  currentStep :: nat
  lastUpdate :: real
  isUpdate :: bool
  targetVersion :: jsval

section \<open>network.js\<close>

definition calculateDownloadTime :: "config \<Rightarrow> real \<Rightarrow> string \<Rightarrow> real \<times> real" where
  "calculateDownloadTime cfg r packageName =
     (let packageSize = table_size packageName in
      if \<not> enabled cfg then (0, packageSize)
      else
        let sizeInBits = packageSize * 8 * 1024;
            speedInBitsPerSec = speed cfg * 1000000;
            downloadTimeSeconds = sizeInBits / speedInBitsPerSec;
            downloadTime = downloadTimeSeconds * 1000
        in if downloadTime < 30 then (0, packageSize)
           else
             let t1 = downloadTime + latency cfg;
                 t2 = (if jitter cfg > 0 then t1 + r * jitter cfg else t1);
                 t3 = (if packetLoss cfg > 0 then t2 * (1 + packetLoss cfg / 100) else t2)
             in (of_int (round t3), packageSize))"

definition instant_step :: "real \<Rightarrow> step" where
  "instant_step sizeKB =
     \<lparr>progress = 100, message = DownloadedInstantly sizeKB, wait = 0, complete = True\<rparr>"

text \<open>The body of the loop of \<^verbatim>\<open>createDownloadSteps\<close> at index \<open>i\<close>.\<close>

definition download_step ::
  "real \<Rightarrow> real \<Rightarrow> string \<Rightarrow> (nat \<Rightarrow> real) \<Rightarrow> nat \<Rightarrow> nat \<Rightarrow> step" where
  "download_step time sizeKB packageName w numUpdates i =
     (let updateInterval = 1500;
          bytesPerMs = sizeKB / time;
          isComplete = (int i = int numUpdates - 1);
          waitTime = (if isComplete then max 500 (time - real i * updateInterval)
                      else updateInterval * (0.9 + w i * 0.2));
          elapsedTime = real i * updateInterval;
          downloadedAmount = (if isComplete then sizeKB else min sizeKB (bytesPerMs * elapsedTime));
          progress = (downloadedAmount / sizeKB) * 100
      in \<lparr>progress = progress,
          message = (if isComplete then DownloadedIn sizeKB time
                     else Downloading packageName progress downloadedAmount sizeKB),
          wait = waitTime,
          complete = isComplete\<rparr>)"

definition createDownloadSteps ::
  "config \<Rightarrow> real \<Rightarrow> (nat \<Rightarrow> real) \<Rightarrow> string \<Rightarrow> step list" where
  "createDownloadSteps cfg r w packageName =
     (let (time, sizeKB) = calculateDownloadTime cfg r packageName in
      if time = 0 \<or> \<not> enabled cfg \<or> time < 100 then [instant_step sizeKB]
      else
        let numUpdates = nat (max 3 \<lceil>time / 1500\<rceil>)
        in map (download_step time sizeKB packageName w numUpdates) [0..<numUpdates])"

section \<open>part_001\<close>

text \<open>\<^verbatim>\<open>packageSizeKB || PACKAGE_SIZES[packageName] || 1024\<close>; \<open>None\<close> is an argument left out.\<close>

definition size_or_table :: "real option \<Rightarrow> string \<Rightarrow> real" where
  "size_or_table packageSizeKB packageName =
     (case packageSizeKB of
        Some s \<Rightarrow> if s = 0 then table_size packageName else s
      | None \<Rightarrow> table_size packageName)"

definition calculateDownloadTime_part001 ::
  "config \<Rightarrow> real \<Rightarrow> string \<Rightarrow> real option \<Rightarrow> real \<times> real" where
  "calculateDownloadTime_part001 cfg r packageName packageSizeKB =
     (let packageSize = size_or_table packageSizeKB packageName in
      if \<not> enabled cfg then (0, packageSize)
      else
        let sizeInBits = packageSize * 8 * 1024;
            speedInBitsPerSec = speed cfg * 1000000;
            downloadTimeSeconds = sizeInBits / speedInBitsPerSec;
            downloadTime0 = downloadTimeSeconds * 1000;
            minTime = min 1000 packageSize;
            downloadTime = max minTime downloadTime0;
            t1 = downloadTime + latency cfg;
            t2 = (if jitter cfg > 0 then t1 + r * jitter cfg else t1);
            t3 = (if packetLoss cfg > 0 then t2 * (1 + packetLoss cfg / 100) else t2)
        in (of_int (round t3), packageSize))"

text \<open>The body of the loop of part_001's \<^verbatim>\<open>createDownloadSteps\<close> at index \<open>i\<close> (from 1).\<close>

definition download_step_part001 :: "real \<Rightarrow> real \<Rightarrow> string \<Rightarrow> nat \<Rightarrow> nat \<Rightarrow> step" where
  "download_step_part001 time sizeKB packageName numUpdates i =
     (let interval = 1500;
          isLast = (i = numUpdates);
          waitMs = (if isLast then max 50 (time - interval * (real numUpdates - 1)) else interval);
          elapsed = min time (real i * interval);
          progress = of_int (round ((elapsed / time) * 100 * 10)) / 10;
          downloaded = (sizeKB * elapsed) / time
      in \<lparr>progress = (if isLast then 100 else progress),
          message = (if isLast then DownloadedIn sizeKB time
                     else Downloading packageName progress downloaded sizeKB),
          wait = waitMs,
          complete = isLast\<rparr>)"

definition createDownloadSteps_part001 ::
  "config \<Rightarrow> real \<Rightarrow> string \<Rightarrow> real option \<Rightarrow> step list" where
  "createDownloadSteps_part001 cfg r packageName packageSizeKB =
     (let sizeKB = size_or_table packageSizeKB packageName;
          time = fst (calculateDownloadTime_part001 cfg r packageName (Some sizeKB))
      in if \<not> enabled cfg then [instant_step sizeKB]
         else
           let numUpdates = nat \<lceil>time / 1500\<rceil>
           in map (download_step_part001 time sizeKB packageName numUpdates) [1..<Suc numUpdates])"

section \<open>Recalculation (the same text in both modules)\<close>

text \<open>The body of the loop of \<^verbatim>\<open>recalculateDownloadSteps\<close> at index \<open>i\<close>.\<close>

definition recalc_step ::
  "real \<Rightarrow> real \<Rightarrow> real \<Rightarrow> real \<Rightarrow> string \<Rightarrow> (nat \<Rightarrow> real) \<Rightarrow> nat \<Rightarrow> nat \<Rightarrow> step" where
  "recalc_step time sizeKB currentProgress remainingTimeMs packageName w numUpdates i =
     (let updateInterval = 1500;
          downloadedAmount = (sizeKB * currentProgress) / 100;
          remainingSize = sizeKB - downloadedAmount;
          bytesPerMs = remainingSize / remainingTimeMs;
          isComplete = (int i = int numUpdates - 1);
          waitTime = (if isComplete then max 500 (remainingTimeMs - real i * updateInterval)
                      else updateInterval * (0.9 + w i * 0.2));
          elapsedTime = real i * updateInterval;
          additionalDownloaded =
            (if isComplete then remainingSize else min remainingSize (bytesPerMs * elapsedTime));
          stepDownloadedAmount = downloadedAmount + additionalDownloaded;
          progress = (stepDownloadedAmount / sizeKB) * 100
      in \<lparr>progress = progress,
          message = (if isComplete
                     then DownloadedIn sizeKB (time * (currentProgress / 100) + remainingTimeMs)
                     else Downloading packageName progress stepDownloadedAmount sizeKB),
          wait = waitTime,
          complete = isComplete\<rparr>)"

text \<open>
  \<^verbatim>\<open>recalculateDownloadSteps\<close>, with the result \<open>(time, sizeKB)\<close> of the module's own
  \<^verbatim>\<open>calculateDownloadTime(userId, packageName)\<close> as first argument. \<open>None\<close> is an absent
  download state.
\<close>

definition recalculate ::
  "real \<times> real \<Rightarrow> config \<Rightarrow> (nat \<Rightarrow> real) \<Rightarrow> string \<Rightarrow> download_state option
     \<Rightarrow> download_state option" where
  "recalculate ts cfg w packageName downloadState =
     (case downloadState of
        None \<Rightarrow> None
      | Some ds \<Rightarrow>
          if currentStep ds \<ge> length (steps ds) then Some ds
          else
            let (time, sizeKB) = ts in
            if time = 0 \<or> \<not> enabled cfg \<or> time < 100
            then Some (ds\<lparr>currentStep := length (steps ds) - 1\<rparr>)
            else
              let currentProgress = progress (steps ds ! currentStep ds);
                  downloadedAmount = (sizeKB * currentProgress) / 100;
                  remainingSize = sizeKB - downloadedAmount;
                  remainingSizeInBits = remainingSize * 8 * 1024;
                  speedInBitsPerSec = speed cfg * 1000000;
                  remainingTimeSeconds = remainingSizeInBits / speedInBitsPerSec;
                  remainingTimeMs = max 100 (remainingTimeSeconds * 1000);
                  numUpdates = nat (max 1 \<lceil>remainingTimeMs / 1500\<rceil>);
                  newSteps = map (recalc_step time sizeKB currentProgress remainingTimeMs
                                    packageName w numUpdates) [0..<numUpdates]
              in Some (ds\<lparr>steps := take (currentStep ds + 1) (steps ds) @ newSteps\<rparr>))"

datatype network_module = Network_js | Part_001

text \<open>\<^verbatim>\<open>calculateDownloadTime(userId, packageName)\<close> as the module \<open>m\<close> defines it.\<close>

definition module_time :: "network_module \<Rightarrow> config \<Rightarrow> real \<Rightarrow> string \<Rightarrow> real \<times> real" where
  "module_time m cfg r packageName =
     (case m of
        Network_js \<Rightarrow> calculateDownloadTime cfg r packageName
      | Part_001 \<Rightarrow> calculateDownloadTime_part001 cfg r packageName None)"

text \<open>\<^verbatim>\<open>recalculateDownloadSteps\<close> of the module \<open>m\<close>.\<close>

definition recalculateDownloadSteps ::
  "network_module \<Rightarrow> config \<Rightarrow> real \<Rightarrow> (nat \<Rightarrow> real) \<Rightarrow> string \<Rightarrow> download_state option
     \<Rightarrow> download_state option" where
  "recalculateDownloadSteps m cfg r w packageName downloadState =
     recalculate (module_time m cfg r packageName) cfg w packageName downloadState"


section \<open>Version comparison (part_002)\<close>

text \<open>\<^verbatim>\<open>s.split(c)\<close> for a separator of one character; the empty string gives one empty part.\<close>

fun split_on :: "char \<Rightarrow> string \<Rightarrow> string list" where
  "split_on c [] = [[]]"
| "split_on c (x # xs) =
     (if x = c then [] # split_on c xs
      else (case split_on c xs of
              p # ps \<Rightarrow> (x # p) # ps
            | [] \<Rightarrow> [[x]]))"

definition is_digit :: "char \<Rightarrow> bool" where
  "is_digit c = (48 \<le> (of_char c :: nat) \<and> (of_char c :: nat) \<le> 57)"

definition digit_value :: "char \<Rightarrow> int" where
  "digit_value c = int (of_char c) - 48"

definition decimal :: "string \<Rightarrow> int" where
  "decimal s = fold (\<lambda>c n. 10 * n + digit_value c) s 0"

text \<open>
  \<^verbatim>\<open>Number(s)\<close> on a version component; \<open>None\<close> is \<^verbatim>\<open>NaN\<close>. The empty string is 0 and a
  string of decimal digits is its value. Every other string is taken to \<^verbatim>\<open>NaN\<close>: signs,
  exponents, hexadecimal literals and surrounding white space, which JavaScript also
  reads as numbers, are outside the model, and so is the loss of precision of a double
  beyond \<open>2\<^sup>5\<^sup>3\<close>. The theorems on version comparison assume components made of digits.
\<close>

definition js_Number :: "string \<Rightarrow> int option" where
  "js_Number s = (if list_all is_digit s then Some (decimal s) else None)"

text \<open>\<^verbatim>\<open>parts[i] || 0\<close>: an index out of range and \<^verbatim>\<open>NaN\<close> both give 0.\<close>

definition part_or_zero :: "int option list \<Rightarrow> nat \<Rightarrow> int" where
  "part_or_zero parts i =
     (if i < length parts then (case parts ! i of Some v \<Rightarrow> v | None \<Rightarrow> 0) else 0)"

function compare_from :: "int option list \<Rightarrow> int option list \<Rightarrow> nat \<Rightarrow> int" where
  "compare_from v1Parts v2Parts i =
     (if i < max (length v1Parts) (length v2Parts) then
        (let v1Part = part_or_zero v1Parts i;
             v2Part = part_or_zero v2Parts i
         in if v1Part > v2Part then 1
            else if v1Part < v2Part then - 1
            else compare_from v1Parts v2Parts (Suc i))
      else 0)"
  by pat_completeness auto
termination
  by (relation "measure (\<lambda>(v1Parts, v2Parts, i). max (length v1Parts) (length v2Parts) - i)") auto

definition compareVersions :: "string \<Rightarrow> string \<Rightarrow> int" where
  "compareVersions version1 version2 =
     compare_from (map js_Number (split_on CHR ''.'' version1))
                  (map js_Number (split_on CHR ''.'' version2)) 0"

section \<open>Package manager (part_002)\<close>

datatype error = TypeError

text \<open>
  Modelled from the spec: the filesystem module (\<^verbatim>\<open>./filesystem\<close>) is not among the sources.
  Its \<^verbatim>\<open>createFilesystem()\<close> gives a tree with a \<^verbatim>\<open>/sys/pkgs\<close> directory and the leaves
  \<^verbatim>\<open>/sys/os_version\<close> and \<^verbatim>\<open>/sys/os_branch\<close>. A user's filesystem is kept as the part of
  the tree that the package manager reads and writes: the content of each of the two
  leaves (\<open>None\<close> when the leaf is absent), the content of a file \<^verbatim>\<open>/os_branch\<close> at the
  root, which the instant installation reads, and the files of \<^verbatim>\<open>/sys/pkgs\<close> by name.
\<close>

record user_fs =
  os_version :: "jsval option"
  os_branch :: "jsval option"
  root_os_branch :: "jsval option"
  pkgs :: "string \<rightharpoonup> string"

text \<open>
  The data loaded from the package and update files by \<^verbatim>\<open>loadPackages\<close> and
  \<^verbatim>\<open>loadUpdates\<close>, and the default tree of the absent \<^verbatim>\<open>createFilesystem\<close>.
\<close>

record env =
  packageDefinitions :: "string \<rightharpoonup> (string \<rightharpoonup> string)"
  PKG_SIZES :: "string \<rightharpoonup> real"
  UPDATE_SIZES :: "string \<rightharpoonup> real"
  osBranches :: "string \<rightharpoonup> string"
  createFilesystem :: user_fs

text \<open>
  Modelled from the spec: the persistence module (\<^verbatim>\<open>db/utils\<close>) is not among the sources.
  \<^verbatim>\<open>save(table, key, value)\<close> stores a value and \<^verbatim>\<open>load(table, key, default)\<close> gives the
  value stored last, or the default. The table \<^verbatim>\<open>user_filesystems\<close> is kept as the list
  of its saves, the newest first, so that every save can be counted.
\<close>

record world =
  activeDownloads :: "string \<rightharpoonup> download_state"
  fs_saves :: "(string \<times> user_fs) list"

definition saveToDB :: "string \<Rightarrow> user_fs \<Rightarrow> world \<Rightarrow> world" where
  "saveToDB userId userFS wd = wd\<lparr>fs_saves := (userId, userFS) # fs_saves wd\<rparr>"

definition loadFromDB :: "world \<Rightarrow> string \<Rightarrow> user_fs \<Rightarrow> user_fs" where
  "loadFromDB wd userId dflt = (case map_of (fs_saves wd) userId of Some v \<Rightarrow> v | None \<Rightarrow> dflt)"

definition download_key :: "string \<Rightarrow> string \<Rightarrow> string" where
  "download_key userId packageName = userId @ '':'' @ packageName"

definition getDownloadStatus :: "world \<Rightarrow> string \<Rightarrow> string \<Rightarrow> download_state option" where
  "getDownloadStatus wd userId packageName = activeDownloads wd (download_key userId packageName)"

definition setDownloadStatus ::
  "string \<Rightarrow> string \<Rightarrow> download_state option \<Rightarrow> world \<Rightarrow> world" where
  "setDownloadStatus userId packageName downloadState wd =
     wd\<lparr>activeDownloads := (activeDownloads wd)(download_key userId packageName := downloadState)\<rparr>"

definition getUpdateSize :: "env \<Rightarrow> string \<Rightarrow> real" where
  "getUpdateSize e version =
     (case UPDATE_SIZES e version of Some s \<Rightarrow> if s = 0 then 2048 else s | None \<Rightarrow> 2048)"

definition starts_with :: "string \<Rightarrow> string \<Rightarrow> bool" where
  "starts_with p s = (take (length p) s = p)"

text \<open>\<^verbatim>\<open>leaf?.content || d\<close>\<close>

definition content_or :: "jsval option \<Rightarrow> string \<Rightarrow> string" where
  "content_or leaf d =
     (case leaf of
        Some (Str s) \<Rightarrow> if s = [] then d else s
      | _ \<Rightarrow> d)"

text \<open>A value inside a template literal.\<close>

definition to_text :: "jsval \<Rightarrow> string" where
  "to_text v = (case v of Str s \<Rightarrow> s | Undefined \<Rightarrow> ''undefined'')"

definition package_record :: "string \<Rightarrow> string \<Rightarrow> string \<Rightarrow> string" where
  "package_record packageName currentVersion currentBranch =
     ''Package: '' @ packageName @ [CHR 0x0A] @ ''Version: '' @ currentVersion @ [CHR 0x0A]
       @ ''Branch: '' @ currentBranch"

text \<open>
  \<^verbatim>\<open>processDownload\<close>. \<open>mk userId packageName size\<close> is \<^verbatim>\<open>createDownloadSteps\<close> of the
  network module at the profile of the user, \<open>now\<close> is \<^verbatim>\<open>Date.now()\<close>, and \<open>userFS\<close> is the
  object of the caller, returned as the call leaves it. A thrown \<^verbatim>\<open>TypeError\<close> keeps the
  writes made before it.
\<close>

definition processDownload ::
  "env \<Rightarrow> (string \<Rightarrow> string \<Rightarrow> real option \<Rightarrow> step list) \<Rightarrow> real \<Rightarrow> string \<Rightarrow> user_fs \<Rightarrow> string
     \<Rightarrow> bool \<Rightarrow> world \<Rightarrow> (error + message option) \<times> user_fs \<times> world" where
  "processDownload e mk now userId userFS packageName initialRequest wd =
     (let isUpd = starts_with ''update-'' packageName in
      case getDownloadStatus wd userId packageName of
        Some downloadState \<Rightarrow>
          if currentStep downloadState < length (steps downloadState) then
            let stp = steps downloadState ! currentStep downloadState in
            if \<not> initialRequest then
              if int (currentStep downloadState) = int (length (steps downloadState)) - 1 then
                if isUpd then
                  let tv = targetVersion downloadState;
                      currentBranch = content_or (os_branch userFS) ''stable''
                  in (case os_version userFS of
                        None \<Rightarrow> (Inl TypeError, userFS, wd)
                      | Some _ \<Rightarrow>
                          let userFS' = userFS\<lparr>os_version := Some tv\<rparr>;
                              wd' = saveToDB userId userFS' wd;
                              wd'' = setDownloadStatus userId packageName None wd'
                          in (Inr (Some (SystemUpdatedBranch tv currentBranch)), userFS', wd''))
                else
                  let currentVersion = content_or (os_version userFS) ''1.0.0'';
                      currentBranch = content_or (os_branch userFS) ''stable'';
                      userFS' = userFS\<lparr>pkgs := (pkgs userFS)(packageName @ ''.pkg'' \<mapsto>
                                   package_record packageName currentVersion currentBranch)\<rparr>;
                      wd' = saveToDB userId userFS' wd;
                      wd'' = setDownloadStatus userId packageName None wd'
                  in (Inr (Some (PackageInstalledSuccessfully packageName)), userFS', wd'')
              else (Inr (Some (message stp)), userFS, wd)
            else (Inr (Some (message stp)), userFS, wd)
          else
            let wd' = setDownloadStatus userId packageName None wd
            in if isUpd then (Inr (Some (SystemUpdated (targetVersion downloadState))), userFS, wd')
               else (Inr (Some (PackageInstalledSuccessfully packageName)), userFS, wd')
      | None \<Rightarrow>
          if initialRequest then
            if isUpd then
              let tv = takeWhile (\<lambda>c. c \<noteq> CHR ''-'') (drop 7 packageName);
                  updateSize = getUpdateSize e tv;
                  stps = mk userId packageName (Some updateSize)
              in if length stps = 1 \<and> wait (stps ! 0) = 0 then
                   let currentBranch = content_or (os_branch userFS) ''stable''
                   in (case os_version userFS of
                         None \<Rightarrow> (Inl TypeError, userFS, wd)
                       | Some _ \<Rightarrow>
                           let userFS' = userFS\<lparr>os_version := Some (Str tv)\<rparr>;
                               wd' = saveToDB userId userFS' wd
                           in (Inr (Some (SystemUpdatedBranch (Str tv) currentBranch)),
                               userFS', wd'))
                 else
                   let wd' = setDownloadStatus userId packageName
                               (Some \<lparr>steps = stps, currentStep = 0, lastUpdate = now,
                                      isUpdate = True, targetVersion = Str tv\<rparr>) wd
                   in (case stps of
                         [] \<Rightarrow> (Inl TypeError, userFS, wd')
                       | s0 # _ \<Rightarrow> (Inr (Some (StartedUpdate (Str tv) (message s0))), userFS, wd'))
            else
              let packageSize = PKG_SIZES e packageName;
                  stps = mk userId packageName packageSize
              in if length stps = 1 \<and> wait (stps ! 0) = 0 then
                   let currentVersion = content_or (os_version userFS) ''1.0.0'';
                       currentBranch = content_or (root_os_branch userFS) ''stable'';
                       userFS' = userFS\<lparr>pkgs := (pkgs userFS)(packageName @ ''.pkg'' \<mapsto>
                                    package_record packageName currentVersion currentBranch)\<rparr>;
                       wd' = saveToDB userId userFS' wd
                   in (Inr (Some (InstalledPackage packageName)), userFS', wd')
                 else
                   let wd' = setDownloadStatus userId packageName
                               (Some \<lparr>steps = stps, currentStep = 0, lastUpdate = now,
                                      isUpdate = False, targetVersion = Undefined\<rparr>) wd
                   in (case stps of
                         [] \<Rightarrow> (Inl TypeError, userFS, wd')
                       | s0 # _ \<Rightarrow>
                           (Inr (Some (StartedDownloading packageName (message s0))), userFS, wd'))
          else (Inr None, userFS, wd))"

definition startUpdateDownload ::
  "env \<Rightarrow> (string \<Rightarrow> string \<Rightarrow> real option \<Rightarrow> step list) \<Rightarrow> real \<Rightarrow> string \<Rightarrow> jsval \<Rightarrow> world
     \<Rightarrow> download_state \<times> world" where
  "startUpdateDownload e mk now userId tv wd =
     (let updateSize = getUpdateSize e (to_text tv);
          stps = mk userId (''update-'' @ to_text tv) (Some updateSize);
          downloadState = \<lparr>steps = stps, currentStep = 0, lastUpdate = now, isUpdate = True,
                           targetVersion = tv\<rparr>
      in (downloadState,
          setDownloadStatus userId (''update-'' @ to_text tv) (Some downloadState) wd))"

definition isPackageAvailable :: "env \<Rightarrow> string \<Rightarrow> string \<Rightarrow> string \<Rightarrow> bool" where
  "isPackageAvailable e packageName osVersion osBranch =
     (case packageDefinitions e packageName of
        None \<Rightarrow> False
      | Some d \<Rightarrow>
          (case d osBranch of
             None \<Rightarrow> False
           | Some minVersion \<Rightarrow> compareVersions osVersion minVersion \<ge> 0))"

definition branch_version :: "env \<Rightarrow> string \<Rightarrow> jsval" where
  "branch_version e b = (case osBranches e b of Some v \<Rightarrow> Str v | None \<Rightarrow> Undefined)"

text \<open>
  The branch of \<^verbatim>\<open>pkgCommand\<close> for \<^verbatim>\<open>upgrade\<close>, once the target branch is known; the leaf
  \<^verbatim>\<open>os_branch\<close> of \<open>userFS\<close> has been ensured by \<^verbatim>\<open>pkgCommand\<close>.
\<close>

definition pkg_upgrade_to ::
  "env \<Rightarrow> (string \<Rightarrow> string \<Rightarrow> real option \<Rightarrow> step list) \<Rightarrow> real \<Rightarrow> string \<Rightarrow> string
     \<Rightarrow> user_fs \<Rightarrow> world \<Rightarrow> (error + message option) \<times> world" where
  "pkg_upgrade_to e mk now userId targetBranch userFS wd =
     (let userFS1 = (if os_version userFS = None
                     then userFS\<lparr>os_version := Some (Str ''1.0.0'')\<rparr> else userFS);
          currentVersion = (case os_version userFS1 of Some v \<Rightarrow> v | None \<Rightarrow> Undefined);
          currentBranch = (case os_branch userFS1 of Some v \<Rightarrow> v | None \<Rightarrow> Undefined);
          tv = branch_version e targetBranch
      in if currentVersion = tv \<and> currentBranch = Str targetBranch
         then (Inr (Some (AlreadyUpToDate targetBranch)), wd)
         else
           (case (if currentBranch = Str ''unstable'' \<and> targetBranch = ''stable''
                  then (case (currentVersion, tv) of
                          (Str a, Str b) \<Rightarrow> Inr (compareVersions a b > 0)
                        | _ \<Rightarrow> Inl TypeError)
                  else Inr False) of
              Inl err \<Rightarrow> (Inl err, wd)
            | Inr isDowngrade \<Rightarrow>
                let userFS2 = userFS1\<lparr>os_branch := Some (Str targetBranch)\<rparr>;
                    wd1 = saveToDB userId userFS2 wd;
                    (downloadState, wd2) = startUpdateDownload e mk now userId tv wd1
                in (case steps downloadState of
                      [] \<Rightarrow> (Inl TypeError, wd2)
                    | firstStep # _ \<Rightarrow>
                        if isDowngrade
                        then (Inr (Some (StartingDowngrade (to_text currentBranch)
                                (to_text currentVersion) targetBranch (to_text tv)
                                (message firstStep))), wd2)
                        else if currentVersion = tv
                        then (Inr (Some (StartingSwitch (to_text tv) targetBranch
                                (message firstStep))), wd2)
                        else (Inr (Some (StartingUpgrade (to_text tv) targetBranch
                                (message firstStep))), wd2))))"

text \<open>The option \<^verbatim>\<open>--<branch>\<close> of \<^verbatim>\<open>upgrade\<close>: the first argument that starts with two dashes.\<close>

definition pkg_upgrade ::
  "env \<Rightarrow> (string \<Rightarrow> string \<Rightarrow> real option \<Rightarrow> step list) \<Rightarrow> real \<Rightarrow> string \<Rightarrow> string list
     \<Rightarrow> user_fs \<Rightarrow> world \<Rightarrow> (error + message option) \<times> world" where
  "pkg_upgrade e mk now userId args userFS wd =
     (case find (starts_with ''--'') args of
        None \<Rightarrow> pkg_upgrade_to e mk now userId ''stable'' userFS wd
      | Some arg \<Rightarrow>
          let branchArg = drop 2 arg
          in (case osBranches e branchArg of
                None \<Rightarrow> (Inr (Some (UnknownBranch branchArg)), wd)
              | Some v \<Rightarrow>
                  if v = [] then (Inr (Some (UnknownBranch branchArg)), wd)
                  else pkg_upgrade_to e mk now userId branchArg userFS wd))"

text \<open>
  \<^verbatim>\<open>pkgCommand\<close>. The subcommands \<^verbatim>\<open>list\<close>, \<^verbatim>\<open>search\<close>, \<^verbatim>\<open>branches\<close> and \<^verbatim>\<open>status\<close> without
  a package only read the state; their reports are not rendered.
\<close>

definition pkgCommand ::
  "env \<Rightarrow> (string \<Rightarrow> string \<Rightarrow> real option \<Rightarrow> step list) \<Rightarrow> real \<Rightarrow> string \<Rightarrow> string list
     \<Rightarrow> world \<Rightarrow> (error + message option) \<times> world" where
  "pkgCommand e mk now userId args wd =
     (case args of
        [] \<Rightarrow> (Inr (Some MissingSubcommand), wd)
      | subcommand # rest \<Rightarrow>
          if subcommand = [] then (Inr (Some MissingSubcommand), wd)
          else
            let userFS0 = loadFromDB wd userId (createFilesystem e);
                userFS = (if os_branch userFS0 = None
                          then userFS0\<lparr>os_branch := Some (Str ''stable'')\<rparr> else userFS0)
            in if subcommand = ''upgrade'' then pkg_upgrade e mk now userId args userFS wd
               else
                 let currentVersion = content_or (os_version userFS) ''1.0.0'';
                     currentBranch = content_or (os_branch userFS) ''stable''
                 in if subcommand = ''install'' then
                      (case rest of
                         [] \<Rightarrow> (Inr (Some UsageInstall), wd)
                       | pkgName # _ \<Rightarrow>
                           if pkgName = [] then (Inr (Some UsageInstall), wd)
                           else if pkgs userFS (pkgName @ ''.pkg'') \<noteq> None
                           then (Inr (Some (AlreadyInstalled pkgName)), wd)
                           else if \<not> isPackageAvailable e pkgName currentVersion currentBranch
                           then (case packageDefinitions e pkgName of
                                   Some d \<Rightarrow>
                                     (case d currentBranch of
                                        Some minVersion \<Rightarrow>
                                          (Inr (Some (RequiresVersion pkgName currentBranch
                                             minVersion)), wd)
                                      | None \<Rightarrow> (Inr (Some (NotOnBranch pkgName currentBranch)), wd))
                                 | None \<Rightarrow> (Inr (Some (PackageNotFound pkgName)), wd))
                           else
                             let wd1 = setDownloadStatus userId pkgName None wd;
                                 (res, _, wd2) = processDownload e mk now userId userFS pkgName True wd1
                             in (res, wd2))
                    else if subcommand = ''remove'' then
                      (case rest of
                         [] \<Rightarrow> (Inr (Some UsageRemove), wd)
                       | pkgName # _ \<Rightarrow>
                           if pkgName = [] then (Inr (Some UsageRemove), wd)
                           else
                             let wd1 = setDownloadStatus userId pkgName None wd
                             in if pkgs userFS (pkgName @ ''.pkg'') = None
                                then (Inr (Some (RemoveNotFound pkgName)), wd1)
                                else
                                  let userFS' = userFS\<lparr>pkgs := (pkgs userFS)(pkgName @ ''.pkg'' := None)\<rparr>
                                  in (Inr (Some (RemovedPackage pkgName)), saveToDB userId userFS' wd1))
                    else if subcommand = ''status'' \<and> rest \<noteq> [] \<and> hd rest \<noteq> [] then
                      (case getDownloadStatus wd userId (hd rest) of
                         Some downloadState \<Rightarrow>
                           if currentStep downloadState < length (steps downloadState)
                           then (Inr (Some (message (steps downloadState ! currentStep downloadState))), wd)
                           else (Inl TypeError, wd)
                       | None \<Rightarrow> (Inr (Some (NoDownloadInProgress (hd rest))), wd))
                    else if subcommand \<in> {''list'', ''search'', ''branches'', ''status''}
                    then (Inr (Some (ReadOnlyReport subcommand)), wd)
                    else (Inr (Some InvalidSubcommand), wd))"

text \<open>
  The filesystem that \<^verbatim>\<open>processDownload\<close> writes and saves at the last step of a transfer:
  the version leaf for an update, the package record otherwise.
\<close>

definition terminal_effect :: "string \<Rightarrow> download_state \<Rightarrow> user_fs \<Rightarrow> user_fs" where
  "terminal_effect packageName downloadState userFS =
     (if starts_with ''update-'' packageName
      then userFS\<lparr>os_version := Some (targetVersion downloadState)\<rparr>
      else userFS\<lparr>pkgs := (pkgs userFS)(packageName @ ''.pkg'' \<mapsto>
             package_record packageName (content_or (os_version userFS) ''1.0.0'')
               (content_or (os_branch userFS) ''stable''))\<rparr>)"

text \<open>The message that \<^verbatim>\<open>processDownload\<close> returns with it.\<close>

definition terminal_message :: "string \<Rightarrow> download_state \<Rightarrow> user_fs \<Rightarrow> message" where
  "terminal_message packageName downloadState userFS =
     (if starts_with ''update-'' packageName
      then SystemUpdatedBranch (targetVersion downloadState) (content_or (os_branch userFS) ''stable'')
      else PackageInstalledSuccessfully packageName)"

section \<open>The specification's duration formula\<close>

text \<open>
  The duration as the specification words it (section 4.1), to be compared with
  \<^verbatim>\<open>calculateDownloadTime\<close>: \<open>j\<close> is the jitter drawn.
\<close>

definition transfer_ms :: "real \<Rightarrow> config \<Rightarrow> real" where
  "transfer_ms sizeKB profile = sizeKB * 8 * 1024 / (speed profile * 1000000) * 1000"

definition computeDuration_spec :: "real \<Rightarrow> config \<Rightarrow> real \<Rightarrow> real" where
  "computeDuration_spec sizeKB profile j =
     (if \<not> enabled profile then 0
      else of_int (round ((max (transfer_ms sizeKB profile) (min 1000 sizeKB)
                            + latency profile + j) * (1 + packetLoss profile / 100))))"

text \<open>
  The same duration before it is rounded, and the duration of network.js before it is
  rounded, which has no floor.
\<close>

definition duration_unrounded :: "real \<Rightarrow> config \<Rightarrow> real \<Rightarrow> real" where
  "duration_unrounded sizeKB profile j =
     (max (transfer_ms sizeKB profile) (min 1000 sizeKB) + latency profile + j)
       * (1 + packetLoss profile / 100)"

definition duration_unfloored :: "real \<Rightarrow> config \<Rightarrow> real \<Rightarrow> real" where
  "duration_unfloored sizeKB profile j =
     (transfer_ms sizeKB profile + latency profile + j) * (1 + packetLoss profile / 100)"

text \<open>Draws of \<^verbatim>\<open>Math.random()\<close> that are all 0.\<close>

definition zero_draws :: "nat \<Rightarrow> real" where
  "zero_draws i = 0"

section \<open>The specification's version order\<close>

text \<open>A version whose components are made of decimal digits: digits and dots only.\<close>

definition numeric_version :: "string \<Rightarrow> bool" where
  "numeric_version v = list_all (\<lambda>c. is_digit c \<or> c = CHR ''.'') v"

text \<open>
  The component of a version at position \<open>i\<close> as the specification words it
  (section 4.6): the number between the dots, and 0 for a missing trailing component.
\<close>

definition component :: "string \<Rightarrow> nat \<Rightarrow> int" where
  "component v i =
     (let cs = split_on CHR ''.'' v in if i < length cs then decimal (cs ! i) else 0)"

section \<open>Example inputs\<close>

definition example_steps :: "step list" where
  "example_steps =
     [\<lparr>progress = 0, message = Downloading ''echo'' 0 0 472, wait = 1500, complete = False\<rparr>,
      \<lparr>progress = 90, message = Downloading ''echo'' 90 (2124 / 5) 472, wait = 1500,
       complete = False\<rparr>,
      \<lparr>progress = 100, message = DownloadedIn 472 3887, wait = 887, complete = True\<rparr>]"

definition example_state :: "nat \<Rightarrow> download_state" where
  "example_state k =
     \<lparr>steps = example_steps, currentStep = k, lastUpdate = 0, isUpdate = False,
      targetVersion = Undefined\<rparr>"

definition example_fs :: user_fs where
  "example_fs =
     \<lparr>os_version = Some (Str ''1.0.0''), os_branch = Some (Str ''stable''),
      root_os_branch = None, pkgs = Map.empty\<rparr>"

definition example_env :: env where
  "example_env =
     \<lparr>packageDefinitions =
        [''echo'' \<mapsto> [''stable'' \<mapsto> ''1.0.0'', ''unstable'' \<mapsto> ''1.0.0''],
         ''edit'' \<mapsto> [''stable'' \<mapsto> ''1.0.0'', ''unstable'' \<mapsto> ''1.0.0'']],
      PKG_SIZES = [''echo'' \<mapsto> 472, ''edit'' \<mapsto> 8400],
      UPDATE_SIZES = Map.empty,
      osBranches = [''stable'' \<mapsto> ''1.0.0.1'', ''unstable'' \<mapsto> ''1.0.0.2''],
      createFilesystem = example_fs\<rparr>"

definition example_world :: "string \<Rightarrow> download_state \<Rightarrow> world" where
  "example_world packageName downloadState =
     \<lparr>activeDownloads = [download_key ''u1'' packageName \<mapsto> downloadState], fs_saves = []\<rparr>"

definition empty_world :: world where
  "empty_world = \<lparr>activeDownloads = Map.empty, fs_saves = []\<rparr>"

definition installed_world :: world where
  "installed_world =
     \<lparr>activeDownloads = Map.empty,
      fs_saves = [(''u1'', example_fs\<lparr>pkgs := [''echo.pkg'' \<mapsto>
                     package_record ''echo'' ''1.0.0'' ''stable'']\<rparr>)]\<rparr>"

text \<open>\<^verbatim>\<open>createDownloadSteps\<close> of network.js as \<^verbatim>\<open>processDownload\<close> calls it, every user at the
  default profile with a speed of 1 Mbps.\<close>

definition example_mk :: "string \<Rightarrow> string \<Rightarrow> real option \<Rightarrow> step list" where
  "example_mk userId packageName packageSizeKB =
     createDownloadSteps (DEFAULT_CONFIG\<lparr>speed := 1\<rparr>) 0 zero_draws packageName"

section \<open>Sizes and durations\<close>

lemma table_size_cases:
  "table_size n = 472 \<or> table_size n = 8400 \<or> table_size n = 407 \<or> table_size n = 413
     \<or> table_size n = 1024"
  by (simp add: table_size_def PACKAGE_SIZES_def)

lemma table_size_pos: "0 < table_size n"
  using table_size_cases [of n] by auto

lemma snd_calculateDownloadTime: "snd (calculateDownloadTime cfg r n) = table_size n"
  by (simp add: calculateDownloadTime_def Let_def)


text \<open>
  Claim C1, as amended. Take a size above 0, a positive speed, a latency, a jitter and a
  packet loss that are not negative, a draw \<open>r\<close> in \<open>[0, 1)\<close>, and durations of at most
  \<open>10\<^sup>1\<^sup>1\<close> ms. The jitter \<open>j = r * jitter\<close> is 0 when the jitter is 0 and lies in
  \<open>[0, jitter)\<close> otherwise. Both functions return 0 for a disabled profile and a whole
  number of milliseconds otherwise. For an enabled profile, part_001's
  \<^verbatim>\<open>calculateDownloadTime\<close> returns the millisecond next to
  \<open>(max transfer (min 1000 sizeKB) + latency + j) * (1 + packetLoss / 100)\<close>, within 0.501 ms
  of it; network.js's \<^verbatim>\<open>calculateDownloadTime\<close>, which takes its size from the table of
  the module and has no floor, returns 0 when the transfer time is at most 29.999 ms,
  and the millisecond within 0.501 ms of \<open>(transfer + latency + j) * (1 + packetLoss / 100)\<close>
  when the transfer time is at least 30.001 ms; in between it returns one of the two.
  The margins are there because the program computes in doubles: at a tie of the
  rounding and at the threshold of 30 ms the result of a double can fall on either side,
  so the statement fixes the result only up to these margins.
\<close>

theorem calculateDownloadTime_duration:
  assumes "0 < sizeKB" and "0 < speed cfg" and "0 \<le> latency cfg" and "0 \<le> jitter cfg"
    and "0 \<le> packetLoss cfg" and "0 \<le> r" and "r < 1"
    and "duration_unrounded sizeKB cfg (r * jitter cfg) \<le> 10 ^ 11"
    and "duration_unfloored (table_size packageName) cfg (r * jitter cfg) \<le> 10 ^ 11"
  shows "(jitter cfg = 0 \<and> r * jitter cfg = 0 \<or> 0 \<le> r * jitter cfg \<and> r * jitter cfg < jitter cfg)
       \<and> snd (calculateDownloadTime_part001 cfg r packageName (Some sizeKB)) = sizeKB
       \<and> snd (calculateDownloadTime cfg r packageName) = table_size packageName
       \<and> fst (calculateDownloadTime_part001 cfg r packageName (Some sizeKB)) \<in> \<int>
       \<and> fst (calculateDownloadTime cfg r packageName) \<in> \<int>
       \<and> (if \<not> enabled cfg
           then fst (calculateDownloadTime_part001 cfg r packageName (Some sizeKB)) = 0
                \<and> fst (calculateDownloadTime cfg r packageName) = 0
           else \<bar>fst (calculateDownloadTime_part001 cfg r packageName (Some sizeKB))
                   - duration_unrounded sizeKB cfg (r * jitter cfg)\<bar> \<le> 501 / 1000
                \<and> (fst (calculateDownloadTime cfg r packageName) = 0
                     \<or> \<bar>fst (calculateDownloadTime cfg r packageName)
                          - duration_unfloored (table_size packageName) cfg (r * jitter cfg)\<bar>
                         \<le> 501 / 1000)
                \<and> (transfer_ms (table_size packageName) cfg \<le> 29999 / 1000
                     \<longrightarrow> fst (calculateDownloadTime cfg r packageName) = 0)
                \<and> (30001 / 1000 \<le> transfer_ms (table_size packageName) cfg
                     \<longrightarrow> \<bar>fst (calculateDownloadTime cfg r packageName)
                            - duration_unfloored (table_size packageName) cfg (r * jitter cfg)\<bar>
                           \<le> 501 / 1000))"
proof -
  let ?p1 = "calculateDownloadTime_part001 cfg r packageName (Some sizeKB)"
  let ?nj = "calculateDownloadTime cfg r packageName"
  let ?D = "duration_unrounded sizeKB cfg (r * jitter cfg)"
  let ?E = "duration_unfloored (table_size packageName) cfg (r * jitter cfg)"
  let ?b = "transfer_ms (table_size packageName) cfg"
  have j: "(if jitter cfg > 0 then t + r * jitter cfg else t) = t + r * jitter cfg" for t
    using assms(4) by auto
  have l: "(if packetLoss cfg > 0 then t * (1 + packetLoss cfg / 100) else t)
             = t * (1 + packetLoss cfg / 100)" for t
    using assms(5) by auto
  have a: "?p1 = (if \<not> enabled cfg then 0 else of_int (round ?D), sizeKB)"
    using assms(1)
    by (simp add: calculateDownloadTime_part001_def duration_unrounded_def transfer_ms_def
        size_or_table_def Let_def j l max.commute)
  have b: "?nj = (if enabled cfg \<and> 30 \<le> ?b then of_int (round ?E) else 0,
                  table_size packageName)"
    by (simp add: calculateDownloadTime_def duration_unfloored_def transfer_ms_def Let_def j l
        not_less)
  have c: "jitter cfg = 0 \<and> r * jitter cfg = 0 \<or> 0 \<le> r * jitter cfg \<and> r * jitter cfg < jitter cfg"
  proof (cases "jitter cfg = 0")
    case True
    then show ?thesis by simp
  next
    case False
    then have "0 < jitter cfg" using assms(4) by simp
    then show ?thesis using assms(6,7) by simp
  qed
  have rd: "\<bar>of_int (round x) - x\<bar> \<le> 501 / 1000" for x :: real
    using of_int_round_abs_le [of x] by linarith
  have s1: "snd ?p1 = sizeKB" and s2: "snd ?nj = table_size packageName"
    by (simp_all add: a b)
  have i1: "fst ?p1 \<in> \<int>" and i2: "fst ?nj \<in> \<int>"
    by (simp_all add: a b)
  have d: "fst ?p1 = 0 \<and> fst ?nj = 0" if "\<not> enabled cfg"
    using that by (simp add: a b)
  have e1: "\<bar>fst ?p1 - ?D\<bar> \<le> 501 / 1000" if "enabled cfg"
    using that rd [of ?D] by (simp add: a)
  have e2: "fst ?nj = 0 \<or> \<bar>fst ?nj - ?E\<bar> \<le> 501 / 1000"
    using rd [of ?E] by (simp add: b)
  have e3: "fst ?nj = 0" if "?b \<le> 29999 / 1000"
    using that by (simp add: b)
  have e4: "\<bar>fst ?nj - ?E\<bar> \<le> 501 / 1000" if "enabled cfg" and "30001 / 1000 \<le> ?b"
    using that rd [of ?E] by (simp add: b)
  show ?thesis
  proof (cases "enabled cfg")
    case True
    with c s1 s2 i1 i2 e1 e2 e3 e4 show ?thesis by simp
  next
    case False
    with c s1 s2 i1 i2 d show ?thesis by simp
  qed
qed

theorem calculateDownloadTime_duration_witness:
  "\<bar>fst (calculateDownloadTime_part001 DEFAULT_CONFIG 0 ''echo'' (Some 472)) - 492\<bar> \<le> 501 / 1000
   \<and> duration_unrounded 472 DEFAULT_CONFIG 0 = 492
   \<and> transfer_ms (table_size ''echo'') DEFAULT_CONFIG \<le> 29999 / 1000
   \<and> fst (calculateDownloadTime DEFAULT_CONFIG 0 ''echo'') = 0"
proof -
  have d: "duration_unrounded 472 DEFAULT_CONFIG (0 * jitter DEFAULT_CONFIG) = 492"
    by (simp add: duration_unrounded_def transfer_ms_def DEFAULT_CONFIG_def)
  have t: "table_size ''echo'' = 472"
    by (simp add: table_size_def PACKAGE_SIZES_def)
  have b: "transfer_ms (table_size ''echo'') DEFAULT_CONFIG \<le> 29999 / 1000"
    by (simp add: t transfer_ms_def DEFAULT_CONFIG_def)
  have u: "duration_unfloored (table_size ''echo'') DEFAULT_CONFIG (0 * jitter DEFAULT_CONFIG)
             \<le> 10 ^ 11"
    by (simp add: t duration_unfloored_def transfer_ms_def DEFAULT_CONFIG_def)
  have h: "(0 :: real) < 472" "0 < speed DEFAULT_CONFIG" "0 \<le> latency DEFAULT_CONFIG"
    "0 \<le> jitter DEFAULT_CONFIG" "0 \<le> packetLoss DEFAULT_CONFIG" "(0 :: real) \<le> 0"
    "(0 :: real) < 1" "enabled DEFAULT_CONFIG"
    by (simp_all add: DEFAULT_CONFIG_def)
  have d': "duration_unrounded 472 DEFAULT_CONFIG (0 * jitter DEFAULT_CONFIG) \<le> 10 ^ 11"
    by (simp only: d) simp
  have d0: "duration_unrounded 472 DEFAULT_CONFIG 0 = 492"
    using d by simp
  show ?thesis
    using calculateDownloadTime_duration [OF h(1-7) d' u] b d d0 h(8) by simp
qed

text \<open>
  Claim C1 as stated fails on network.js: for the package \<^verbatim>\<open>echo\<close> (472 KB) under the
  default profile the transfer time is about 7.73 ms, below the 30 ms threshold, and the
  duration is 0, where the formula of the claim gives 492.
\<close>

theorem calculateDownloadTime_counterexample:
  "fst (calculateDownloadTime DEFAULT_CONFIG 0 ''echo'') = 0
   \<and> snd (calculateDownloadTime DEFAULT_CONFIG 0 ''echo'') = 472
   \<and> computeDuration_spec 472 DEFAULT_CONFIG 0 = 492
   \<and> fst (calculateDownloadTime DEFAULT_CONFIG 0 ''echo'')
       \<noteq> computeDuration_spec (snd (calculateDownloadTime DEFAULT_CONFIG 0 ''echo''))
           DEFAULT_CONFIG 0"
  by (simp add: calculateDownloadTime_def DEFAULT_CONFIG_def computeDuration_spec_def
      transfer_ms_def table_size_def PACKAGE_SIZES_def)

section \<open>Step synthesis\<close>

subsection \<open>network.js\<close>

lemma progress_download_step:
  assumes "0 < sz" and "0 < time"
  shows "progress (download_step time sz name w n i)
           = (if int i = int n - 1 then 100 else min 100 (real i * 150000 / time))"
proof -
  have "min sz (sz / time * (real i * 1500)) / sz * 100 = min 100 (real i * 150000 / time)"
    using assms by (simp add: min_def field_simps)
  then show ?thesis
    using assms by (simp add: download_step_def Let_def)
qed

lemma complete_download_step:
  "complete (download_step time sz name w n i) = (int i = int n - 1)"
  by (simp add: download_step_def Let_def)

lemma progress_mono:
  assumes "0 < sz" and "0 < time" and "i \<le> j" and "j < n"
  shows "progress (download_step time sz name w n i) \<le> progress (download_step time sz name w n j)"
proof -
  have "real i * 150000 / time \<le> real j * 150000 / time"
    using assms by (simp add: divide_right_mono)
  then have "min 100 (real i * 150000 / time) \<le> min 100 (real j * 150000 / time)"
    by (simp add: min_def)
  moreover have "min 100 (real i * 150000 / time) \<le> 100" by simp
  moreover have "int i = int n - 1 \<Longrightarrow> int j = int n - 1"
    using assms(3,4) by linarith
  ultimately show ?thesis
    using assms(1,2) by (simp add: progress_download_step)
qed

lemma progress_strict:
  assumes "0 < sz" and "100 \<le> time" and "n = nat (max 3 \<lceil>time / 1500\<rceil>)"
    and "i < j" and "j < n - 1"
  shows "progress (download_step time sz name w n i) < progress (download_step time sz name w n j)"
proof -
  have t: "0 < time" using assms(2) by simp
  have ni: "int i \<noteq> int n - 1" "int j \<noteq> int n - 1" using assms(4,5) by linarith+
  have lt: "real i * 150000 / time < real j * 150000 / time"
    using assms(4) t by (simp add: divide_strict_right_mono)
  have "real i * 1500 < time"
  proof (cases "\<lceil>time / 1500\<rceil> \<le> 3")
    case True
    then have "n = 3" using assms(3) by simp
    then have "i = 0" using assms(4,5) by simp
    then show ?thesis using t by simp
  next
    case False
    then have n: "int n = \<lceil>time / 1500\<rceil>" using assms(3) by simp
    have "int i + 3 \<le> int n" using assms(4,5) by linarith
    then have "real_of_int (int i + 3) \<le> real_of_int \<lceil>time / 1500\<rceil>"
      using n by simp
    moreover have "real_of_int \<lceil>time / 1500\<rceil> < time / 1500 + 1"
      by linarith
    ultimately have "real i + 2 < time / 1500" by simp
    then show ?thesis by (simp add: field_simps)
  qed
  then have "real i * 150000 / time < 100"
    using t by (simp add: field_simps)
  with lt have "min 100 (real i * 150000 / time) < min 100 (real j * 150000 / time)"
    by (simp add: min_def)
  then show ?thesis
    using assms(1) t ni by (simp add: progress_download_step)
qed

lemma sorted_map_upt:
  assumes "\<And>i j. i \<le> j \<Longrightarrow> j < n \<Longrightarrow> f i \<le> (f j :: real)"
  shows "sorted (map f [0..<n])"
  using assms by (simp add: sorted_iff_nth_mono)

lemma strict_map_upt:
  assumes "\<And>i j. i < j \<Longrightarrow> j < n \<Longrightarrow> f i < (f j :: real)"
  shows "sorted_wrt (<) (map f [0..<n])"
  using assms by (simp add: sorted_wrt_iff_nth_less)

lemma plan_of_loop:
  assumes "0 < sz" and "100 \<le> time" and "n = nat (max 3 \<lceil>time / 1500\<rceil>)"
    and "plan = map (download_step time sz name w n) [0..<n]"
  shows "plan \<noteq> [] \<and> progress (last plan) = 100 \<and> complete (last plan)
         \<and> sorted (map progress plan) \<and> sorted_wrt (<) (map progress (butlast plan))"
proof -
  have t: "0 < time" using assms(2) by simp
  have n3: "3 \<le> n" using assms(3) by simp
  then have ne: "plan \<noteq> []" using assms(4) by auto
  have l: "last plan = download_step time sz name w n (n - 1)"
    using n3 assms(4) by (simp add: last_map)
  have e: "int (n - 1) = int n - 1" using n3 by simp
  have p: "progress (last plan) = 100"
    using assms(1) t e by (simp add: l progress_download_step)
  have c: "complete (last plan)"
    using e by (simp add: l complete_download_step)
  have s: "sorted (map progress plan)"
    unfolding assms(4) map_map
    by (rule sorted_map_upt) (simp add: progress_mono [OF assms(1) t])
  have b: "butlast plan = map (download_step time sz name w n) [0..<n - 1]"
    using assms(4) by (simp add: butlast_conv_take take_map)
  have st: "sorted_wrt (<) (map progress (butlast plan))"
    unfolding b map_map
    by (rule strict_map_upt) (simp add: progress_strict [OF assms(1,2,3)])
  from ne p c s st show ?thesis by simp
qed

lemma instant_plan:
  "[instant_step sz] \<noteq> [] \<and> progress (last [instant_step sz]) = 100
   \<and> complete (last [instant_step sz]) \<and> sorted (map progress [instant_step sz])
   \<and> sorted_wrt (<) (map progress (butlast [instant_step sz]))"
  by (simp add: instant_step_def)

lemma createDownloadSteps_network_plan:
  "createDownloadSteps cfg r w name \<noteq> []
   \<and> progress (last (createDownloadSteps cfg r w name)) = 100
   \<and> complete (last (createDownloadSteps cfg r w name))
   \<and> sorted (map progress (createDownloadSteps cfg r w name))
   \<and> sorted_wrt (<) (map progress (butlast (createDownloadSteps cfg r w name)))"
proof -
  obtain time sz where ts: "calculateDownloadTime cfg r name = (time, sz)"
    by (cases "calculateDownloadTime cfg r name")
  then have sz: "0 < sz"
    using snd_calculateDownloadTime [of cfg r name] table_size_pos [of name] by simp
  show ?thesis
  proof (cases "time = 0 \<or> \<not> enabled cfg \<or> time < 100")
    case True
    then have "createDownloadSteps cfg r w name = [instant_step sz]"
      by (simp add: createDownloadSteps_def ts)
    then show ?thesis using instant_plan [of sz] by simp
  next
    case False
    then have "createDownloadSteps cfg r w name
        = map (download_step time sz name w (nat (max 3 \<lceil>time / 1500\<rceil>)))
            [0..<nat (max 3 \<lceil>time / 1500\<rceil>)]"
      by (simp add: createDownloadSteps_def ts Let_def)
    moreover have "100 \<le> time" using False by simp
    ultimately show ?thesis
      using plan_of_loop [OF sz _ refl, of time _ name w] by blast
  qed
qed


subsection \<open>part_001\<close>

lemma progress_step_part001:
  "progress (download_step_part001 time sz name n i)
     = (if i = n then 100 else of_int (round (min time (real i * 1500) / time * 100 * 10)) / 10)"
  by (simp add: download_step_part001_def Let_def)

lemma complete_step_part001: "complete (download_step_part001 time sz name n i) = (i = n)"
  by (simp add: download_step_part001_def Let_def)

lemma rounded_le_100:
  fixes time x :: real
  assumes "0 < time"
  shows "of_int (round (min time x / time * 100 * 10)) / 10 \<le> (100 :: real)"
proof -
  have "min time x / time \<le> 1" using assms by simp
  then have "min time x / time * 100 * 10 \<le> 1000" by simp
  then have "round (min time x / time * 100 * 10) \<le> round (1000 :: real)"
    by (rule round_mono)
  then have "round (min time x / time * 100 * 10) \<le> 1000" by simp
  then have "(of_int (round (min time x / time * 100 * 10)) :: real) \<le> 1000"
    by linarith
  then show ?thesis by simp
qed

lemma progress_part001_mono:
  assumes "0 < time" and "i \<le> j" and "j \<le> n"
  shows "progress (download_step_part001 time sz name n i)
           \<le> progress (download_step_part001 time sz name n j)"
proof (cases "j = n")
  case True
  then show ?thesis
    using rounded_le_100 [OF assms(1)] by (simp add: progress_step_part001)
next
  case False
  then have i: "i \<noteq> n" using assms(2,3) by simp
  have "min time (real i * 1500) \<le> min time (real j * 1500)"
    using assms(2) by (simp add: min_def)
  then have "min time (real i * 1500) / time * 100 * 10 \<le> min time (real j * 1500) / time * 100 * 10"
    using assms(1) by (simp add: divide_right_mono)
  then have "round (min time (real i * 1500) / time * 100 * 10)
               \<le> round (min time (real j * 1500) / time * 100 * 10)"
    by (rule round_mono)
  then have "(of_int (round (min time (real i * 1500) / time * 100 * 10)) :: real)
               \<le> of_int (round (min time (real j * 1500) / time * 100 * 10))"
    by linarith
  then show ?thesis using False i by (simp add: progress_step_part001)
qed

lemma sorted_map_from:
  assumes "\<And>i j. i \<le> j \<Longrightarrow> j < n \<Longrightarrow> f i \<le> (f j :: real)"
  shows "sorted (map f [m..<n])"
  using assms by (simp add: sorted_iff_nth_mono)

lemma plan_of_loop_part001:
  assumes "0 < time" and "n = nat \<lceil>time / 1500\<rceil>"
    and "plan = map (download_step_part001 time sz name n) [1..<Suc n]"
  shows "plan \<noteq> [] \<and> progress (last plan) = 100 \<and> complete (last plan)
         \<and> sorted (map progress plan)"
proof -
  have "0 < time / 1500" using assms(1) by simp
  then have "0 < \<lceil>time / 1500\<rceil>" by (simp only: zero_less_ceiling)
  then have n1: "1 \<le> n" using assms(2) by linarith
  then have ne: "plan \<noteq> []" using assms(3) by simp
  have l: "last plan = download_step_part001 time sz name n n"
    using n1 assms(3) by (simp add: last_map)
  have s: "sorted (map progress plan)"
    unfolding assms(3) map_map
    by (rule sorted_map_from) (simp add: progress_part001_mono [OF assms(1)])
  from ne l s show ?thesis
    by (simp add: progress_step_part001 complete_step_part001)
qed

lemma part001_time_pos:
  assumes "enabled cfg" and "1 / 2 \<le> size_or_table sizeOpt name"
    and "0 \<le> latency cfg" and "0 \<le> jitter cfg" and "0 \<le> packetLoss cfg" and "0 \<le> r"
  shows "0 < fst (calculateDownloadTime_part001 cfg r name (Some (size_or_table sizeOpt name)))"
proof -
  let ?sz = "size_or_table sizeOpt name"
  let ?b = "max (min 1000 ?sz) (?sz * 8 * 1024 / (speed cfg * 1000000) * 1000)"
  let ?t = "(?b + latency cfg + r * jitter cfg) * (1 + packetLoss cfg / 100)"
  have "1 / 2 \<le> ?b" using assms(2) by (simp add: max_def min_def)
  moreover have "0 \<le> r * jitter cfg" using assms(4,6) by simp
  ultimately have h: "1 / 2 \<le> ?b + latency cfg + r * jitter cfg" using assms(3) by linarith
  have "1 \<le> 1 + packetLoss cfg / 100" using assms(5) by simp
  then have "(1 / 2) * 1 \<le> ?t"
    using h by (intro mult_mono) simp_all
  then have "round (1 / 2 :: real) \<le> round ?t"
    by (intro round_mono) simp
  moreover have "round (1 / 2 :: real) = 1" by (simp add: round_def)
  ultimately have "1 \<le> round ?t" by simp
  then have r: "0 < (of_int (round ?t) :: real)" by simp
  have sz: "?sz \<noteq> 0" using assms(2) by auto
  have j: "(if jitter cfg > 0 then t + r * jitter cfg else t) = t + r * jitter cfg" for t
    using assms(4) by auto
  have l: "(if packetLoss cfg > 0 then t * (1 + packetLoss cfg / 100) else t)
             = t * (1 + packetLoss cfg / 100)" for t
    using assms(5) by auto
  have "fst (calculateDownloadTime_part001 cfg r name (Some ?sz)) = of_int (round ?t)"
    using assms(1) sz by (simp add: calculateDownloadTime_part001_def Let_def size_or_table_def j l)
  with r show ?thesis by simp
qed

lemma createDownloadSteps_part001_plan:
  assumes "\<not> enabled cfg
           \<or> 0 < fst (calculateDownloadTime_part001 cfg r name (Some (size_or_table sizeOpt name)))"
  shows "createDownloadSteps_part001 cfg r name sizeOpt \<noteq> []
   \<and> progress (last (createDownloadSteps_part001 cfg r name sizeOpt)) = 100
   \<and> complete (last (createDownloadSteps_part001 cfg r name sizeOpt))
   \<and> sorted (map progress (createDownloadSteps_part001 cfg r name sizeOpt))"
proof (cases "enabled cfg")
  case False
  then show ?thesis
    by (simp add: createDownloadSteps_part001_def Let_def instant_step_def)
next
  case True
  let ?time = "fst (calculateDownloadTime_part001 cfg r name (Some (size_or_table sizeOpt name)))"
  have t: "0 < ?time" using assms True by simp
  have "createDownloadSteps_part001 cfg r name sizeOpt
        = map (download_step_part001 ?time (size_or_table sizeOpt name) name (nat \<lceil>?time / 1500\<rceil>))
            [1..<Suc (nat \<lceil>?time / 1500\<rceil>)]"
    using True by (simp add: createDownloadSteps_part001_def Let_def)
  then show ?thesis
    using plan_of_loop_part001 [OF t refl, of _ "size_or_table sizeOpt name" name] by simp
qed


lemma part001_not_strict:
  assumes "enabled cfg"
    and "time = fst (calculateDownloadTime_part001 cfg r name (Some (size_or_table sizeOpt name)))"
    and "n = nat \<lceil>time / 1500\<rceil>" and "2 < n"
    and "progress (download_step_part001 time (size_or_table sizeOpt name) name n 1)
           = progress (download_step_part001 time (size_or_table sizeOpt name) name n 2)"
  shows "\<not> sorted_wrt (<) (map progress (butlast (createDownloadSteps_part001 cfg r name sizeOpt)))"
proof -
  let ?f = "download_step_part001 time (size_or_table sizeOpt name) name n"
  have "createDownloadSteps_part001 cfg r name sizeOpt = map ?f [1..<Suc n]"
    using assms(1,2,3) by (simp add: createDownloadSteps_part001_def Let_def)
  then have b: "map progress (butlast (createDownloadSteps_part001 cfg r name sizeOpt))
                  = map (\<lambda>i. progress (?f i)) [1..<n]"
    by (simp add: butlast_conv_take take_map)
  have "\<not> sorted_wrt (<) (map (\<lambda>i. progress (?f i)) [1..<n])"
  proof
    assume "sorted_wrt (<) (map (\<lambda>i. progress (?f i)) [1..<n])"
    moreover have "(0 :: nat) < 1" and "1 < length (map (\<lambda>i. progress (?f i)) [1..<n])"
      using assms(4) by simp_all
    ultimately have "map (\<lambda>i. progress (?f i)) [1..<n] ! 0 < map (\<lambda>i. progress (?f i)) [1..<n] ! 1"
      by (rule sorted_wrt_nth_less)
    moreover have "[1..<n] ! 0 = 1 + 0" and "[1..<n] ! 1 = 1 + 1"
      using assms(4) by (simp_all only: nth_upt)
    then have "map (\<lambda>i. progress (?f i)) [1..<n] ! 0 = progress (?f 1)"
      and "map (\<lambda>i. progress (?f i)) [1..<n] ! 1 = progress (?f 2)"
      using assms(4) by (simp_all add: numeral_2_eq_2)
    ultimately have "progress (?f 1) < progress (?f 2)" by (simp only:)
    then show False by (simp only: assms(5) less_irrefl)
  qed
  with b show ?thesis by simp
qed

text \<open>
  Claim C2, as amended. For a positive speed, network.js's \<^verbatim>\<open>createDownloadSteps\<close> returns a
  plan that is not empty, whose last step is complete at progress 100, whose progress
  never decreases, and whose steps before the last strictly increase in progress.
  part_001's \<^verbatim>\<open>createDownloadSteps\<close> returns a plan that is not empty, whose last step is
  complete at progress 100 and whose progress never decreases, when the profile is
  disabled or when the size is at least half a KB and the latency, the jitter, the
  packet loss and the draw are not negative (the rounded duration is then at least
  1 ms).
\<close>

theorem createDownloadSteps_plan:
  assumes "0 < speed cfg"
  shows "(createDownloadSteps cfg r w name \<noteq> []
          \<and> progress (last (createDownloadSteps cfg r w name)) = 100
          \<and> complete (last (createDownloadSteps cfg r w name))
          \<and> sorted (map progress (createDownloadSteps cfg r w name))
          \<and> sorted_wrt (<) (map progress (butlast (createDownloadSteps cfg r w name))))
       \<and> (\<not> enabled cfg
            \<or> 1 / 2 \<le> size_or_table sizeOpt name \<and> 0 \<le> latency cfg \<and> 0 \<le> jitter cfg
               \<and> 0 \<le> packetLoss cfg \<and> 0 \<le> r
          \<longrightarrow> createDownloadSteps_part001 cfg r name sizeOpt \<noteq> []
              \<and> progress (last (createDownloadSteps_part001 cfg r name sizeOpt)) = 100
              \<and> complete (last (createDownloadSteps_part001 cfg r name sizeOpt))
              \<and> sorted (map progress (createDownloadSteps_part001 cfg r name sizeOpt)))"
proof -
  have "\<not> enabled cfg
        \<or> 0 < fst (calculateDownloadTime_part001 cfg r name (Some (size_or_table sizeOpt name)))"
    if "\<not> enabled cfg
        \<or> 1 / 2 \<le> size_or_table sizeOpt name \<and> 0 \<le> latency cfg \<and> 0 \<le> jitter cfg
           \<and> 0 \<le> packetLoss cfg \<and> 0 \<le> r"
    using that part001_time_pos [of cfg sizeOpt name r] by blast
  then show ?thesis
    using createDownloadSteps_network_plan [of cfg r w name]
      createDownloadSteps_part001_plan [of cfg r name sizeOpt]
    by blast
qed

theorem createDownloadSteps_plan_witness:
  "createDownloadSteps (DEFAULT_CONFIG\<lparr>speed := 1\<rparr>) 0 zero_draws ''echo'' \<noteq> []
   \<and> progress (last (createDownloadSteps (DEFAULT_CONFIG\<lparr>speed := 1\<rparr>) 0 zero_draws ''echo'')) = 100
   \<and> sorted (map progress (createDownloadSteps (DEFAULT_CONFIG\<lparr>speed := 1\<rparr>) 0 zero_draws ''echo''))
   \<and> 1 / 2 \<le> size_or_table (Some 472) ''echo''
   \<and> createDownloadSteps_part001 (DEFAULT_CONFIG\<lparr>speed := 1\<rparr>) 0 ''echo'' (Some 472) \<noteq> []
   \<and> sorted (map progress
        (createDownloadSteps_part001 (DEFAULT_CONFIG\<lparr>speed := 1\<rparr>) 0 ''echo'' (Some 472)))"
proof -
  have b: "1 / 2 \<le> size_or_table (Some 472) ''echo''"
    by (simp add: size_or_table_def)
  have c: "0 < speed (DEFAULT_CONFIG\<lparr>speed := 1\<rparr>)" "0 \<le> latency (DEFAULT_CONFIG\<lparr>speed := 1\<rparr>)"
    "0 \<le> jitter (DEFAULT_CONFIG\<lparr>speed := 1\<rparr>)" "0 \<le> packetLoss (DEFAULT_CONFIG\<lparr>speed := 1\<rparr>)"
    by (simp_all add: DEFAULT_CONFIG_def)
  show ?thesis
    using b c
      createDownloadSteps_plan [of "DEFAULT_CONFIG\<lparr>speed := 1\<rparr>" 0 zero_draws "''echo''" "Some 472"]
    by simp
qed

text \<open>
  Claim C2 as stated fails on part_001. A size of 0.4 KB at latency 0 rounds to a
  duration of 0, the loop does not run and the plan is empty. And progress is rounded
  to one decimal: for \<^verbatim>\<open>edit\<close> (8400 KB) at 10 kbps the first two steps both show 0.0, so
  the steps before the last do not strictly increase.
\<close>

theorem createDownloadSteps_counterexample:
  "createDownloadSteps_part001 (DEFAULT_CONFIG\<lparr>latency := 0\<rparr>) 0 ''tiny'' (Some (2 / 5)) = []
   \<and> \<not> sorted_wrt (<) (map progress (butlast
         (createDownloadSteps_part001 (DEFAULT_CONFIG\<lparr>speed := 1 / 100\<rparr>) 0 ''edit'' None)))"
proof -
  have a: "createDownloadSteps_part001 (DEFAULT_CONFIG\<lparr>latency := 0\<rparr>) 0 ''tiny'' (Some (2 / 5)) = []"
    by (simp add: createDownloadSteps_part001_def calculateDownloadTime_part001_def Let_def
        DEFAULT_CONFIG_def size_or_table_def round_def)
  have sz: "size_or_table None ''edit'' = 8400"
    by (simp add: size_or_table_def table_size_def PACKAGE_SIZES_def)
  have t: "(6881300 :: real)
             = fst (calculateDownloadTime_part001 (DEFAULT_CONFIG\<lparr>speed := 1 / 100\<rparr>) 0 ''edit''
                 (Some (size_or_table None ''edit'')))"
    by (simp add: calculateDownloadTime_part001_def Let_def DEFAULT_CONFIG_def
        size_or_table_def table_size_def PACKAGE_SIZES_def round_def)
  have n: "(4588 :: nat) = nat \<lceil>(6881300 :: real) / 1500\<rceil>"
    by simp
  have p: "progress (download_step_part001 6881300 (size_or_table None ''edit'') ''edit'' 4588 1)
             = progress (download_step_part001 6881300 (size_or_table None ''edit'') ''edit'' 4588 2)"
    by (simp add: progress_step_part001 round_def)
  have e: "enabled (DEFAULT_CONFIG\<lparr>speed := 1 / 100\<rparr>)"
    by (simp add: DEFAULT_CONFIG_def)
  have "\<not> sorted_wrt (<) (map progress (butlast
         (createDownloadSteps_part001 (DEFAULT_CONFIG\<lparr>speed := 1 / 100\<rparr>) 0 ''edit'' None)))"
    by (rule part001_not_strict [OF e t n _ p]) simp
  with a show ?thesis by simp
qed

text \<open>
  Claim C3, as amended. For an enabled profile with a positive speed: network.js's
  \<^verbatim>\<open>createDownloadSteps\<close> returns exactly \<open>max 3 \<lceil>time / 1500\<rceil>\<close> steps when the duration
  \<open>time\<close> of the module is at least 100 ms, and part_001's returns exactly
  \<open>\<lceil>time / 1500\<rceil>\<close> steps for its own duration, with no minimum of 3. For the 472 KB
  package \<^verbatim>\<open>echo\<close> under the default profile, network.js has a duration of 0 and one
  instant step, and part_001 has a duration of 492 ms and one step.
\<close>

theorem createDownloadSteps_length:
  assumes "enabled cfg" and "0 < speed cfg"
  shows "(100 \<le> fst (calculateDownloadTime cfg r name)
          \<longrightarrow> length (createDownloadSteps cfg r w name)
               = nat (max 3 \<lceil>fst (calculateDownloadTime cfg r name) / 1500\<rceil>))
       \<and> length (createDownloadSteps_part001 cfg r name sizeOpt)
           = nat \<lceil>fst (calculateDownloadTime_part001 cfg r name
                         (Some (size_or_table sizeOpt name))) / 1500\<rceil>
       \<and> calculateDownloadTime DEFAULT_CONFIG r ''echo'' = (0, 472)
       \<and> length (createDownloadSteps DEFAULT_CONFIG r w ''echo'') = 1
       \<and> calculateDownloadTime_part001 DEFAULT_CONFIG r ''echo'' (Some 472) = (492, 472)
       \<and> length (createDownloadSteps_part001 DEFAULT_CONFIG r ''echo'' (Some 472)) = 1"
proof -
  have a: "length (createDownloadSteps cfg r w name)
             = nat (max 3 \<lceil>fst (calculateDownloadTime cfg r name) / 1500\<rceil>)"
    if "100 \<le> fst (calculateDownloadTime cfg r name)"
    using that assms(1)
    by (cases "calculateDownloadTime cfg r name") (simp add: createDownloadSteps_def Let_def)
  have b: "length (createDownloadSteps_part001 cfg r name sizeOpt)
             = nat \<lceil>fst (calculateDownloadTime_part001 cfg r name
                           (Some (size_or_table sizeOpt name))) / 1500\<rceil>"
    using assms(1) by (simp add: createDownloadSteps_part001_def Let_def del: upt_Suc)
  have c: "calculateDownloadTime DEFAULT_CONFIG r ''echo'' = (0, 472)"
    by (simp add: calculateDownloadTime_def DEFAULT_CONFIG_def table_size_def PACKAGE_SIZES_def)
  have d: "length (createDownloadSteps DEFAULT_CONFIG r w ''echo'') = 1"
    by (simp add: createDownloadSteps_def c)
  have e: "calculateDownloadTime_part001 DEFAULT_CONFIG r ''echo'' (Some 472) = (492, 472)"
    by (simp add: calculateDownloadTime_part001_def DEFAULT_CONFIG_def size_or_table_def)
  have f: "length (createDownloadSteps_part001 DEFAULT_CONFIG r ''echo'' (Some 472)) = 1"
    by (simp add: createDownloadSteps_part001_def calculateDownloadTime_part001_def
        DEFAULT_CONFIG_def size_or_table_def)
  from a b c d e f show ?thesis by simp
qed

theorem createDownloadSteps_length_witness:
  "fst (calculateDownloadTime (DEFAULT_CONFIG\<lparr>speed := 1 / 2\<rparr>) 0 ''echo'') = 7753
   \<and> length (createDownloadSteps (DEFAULT_CONFIG\<lparr>speed := 1 / 2\<rparr>) 0 zero_draws ''echo'') = 6
   \<and> length (createDownloadSteps_part001 (DEFAULT_CONFIG\<lparr>speed := 1 / 2\<rparr>) 0 ''echo'' (Some 472)) = 6"
proof -
  have t: "calculateDownloadTime (DEFAULT_CONFIG\<lparr>speed := 1 / 2\<rparr>) 0 ''echo'' = (7753, 472)"
    by (simp add: calculateDownloadTime_def DEFAULT_CONFIG_def table_size_def PACKAGE_SIZES_def
        round_def)
  have u: "calculateDownloadTime_part001 (DEFAULT_CONFIG\<lparr>speed := 1 / 2\<rparr>) 0 ''echo''
             (Some (size_or_table (Some 472) ''echo'')) = (7753, 472)"
    by (simp add: calculateDownloadTime_part001_def DEFAULT_CONFIG_def size_or_table_def
        round_def)
  have e: "enabled (DEFAULT_CONFIG\<lparr>speed := 1 / 2\<rparr>)" "0 < speed (DEFAULT_CONFIG\<lparr>speed := 1 / 2\<rparr>)"
    by (simp_all add: DEFAULT_CONFIG_def)
  show ?thesis
    using createDownloadSteps_length [OF e, of 0 "''echo''" zero_draws "Some 472"]
    by (simp add: t u)
qed

text \<open>
  Claim C3 as stated fails at its own example. Under network.js the 472 KB package has
  a duration of 0 and a plan of one step; under part_001 it has the duration 492 and a
  plan of one step, which is not \<open>max 3 \<lceil>492 / 1500\<rceil> = 3\<close>.
\<close>

theorem createDownloadSteps_length_counterexample:
  "fst (calculateDownloadTime DEFAULT_CONFIG 0 ''echo'') = 0
   \<and> length (createDownloadSteps DEFAULT_CONFIG 0 zero_draws ''echo'') = 1
   \<and> fst (calculateDownloadTime_part001 DEFAULT_CONFIG 0 ''echo'' (Some 472)) = 492
   \<and> length (createDownloadSteps_part001 DEFAULT_CONFIG 0 ''echo'' (Some 472)) = 1
   \<and> length (createDownloadSteps_part001 DEFAULT_CONFIG 0 ''echo'' (Some 472))
       \<noteq> nat (max 3 \<lceil>fst (calculateDownloadTime_part001 DEFAULT_CONFIG 0 ''echo'' (Some 472))
                         / 1500\<rceil>)"
  by (simp add: createDownloadSteps_def calculateDownloadTime_def createDownloadSteps_part001_def
      calculateDownloadTime_part001_def DEFAULT_CONFIG_def table_size_def PACKAGE_SIZES_def
      size_or_table_def)

section \<open>Recalculation\<close>








lemma recalculate_fast_forward:
  assumes "time = 0 \<or> \<not> enabled cfg \<or> time < 100" and "currentStep ds < length (steps ds)"
  shows "recalculate (time, sz) cfg w name (Some ds)
           = Some (ds\<lparr>currentStep := length (steps ds) - 1\<rparr>)"
  using assms by (auto simp add: recalculate_def)

section \<open>Polling\<close>

lemma processDownload_last_step:
  assumes "getDownloadStatus wd userId name = Some ds"
    and "Suc (currentStep ds) = length (steps ds)"
    and "starts_with ''update-'' name \<longrightarrow> os_version userFS \<noteq> None"
  shows "processDownload e mk now userId userFS name False wd
           = (Inr (Some (terminal_message name ds userFS)), terminal_effect name ds userFS,
              setDownloadStatus userId name None
                (saveToDB userId (terminal_effect name ds userFS) wd))"
proof -
  have k: "currentStep ds < length (steps ds)"
    "int (currentStep ds) = int (length (steps ds)) - 1"
    using assms(2) by linarith+
  show ?thesis
  proof (cases "starts_with ''update-'' name")
    case True
    then obtain v where "os_version userFS = Some v" using assms(3) by auto
    then show ?thesis
      using True assms(1) k
      by (simp add: processDownload_def terminal_effect_def terminal_message_def Let_def)
  next
    case False
    then show ?thesis
      using assms(1) k
      by (simp add: processDownload_def terminal_effect_def terminal_message_def Let_def)
  qed
qed

lemma processDownload_absent:
  assumes "getDownloadStatus wd userId name = None"
  shows "processDownload e mk now userId userFS name False wd = (Inr None, userFS, wd)"
  using assms by (simp add: processDownload_def Let_def)

lemma processDownload_before_last:
  assumes "getDownloadStatus wd userId name = Some ds"
    and "Suc (currentStep ds) < length (steps ds)"
  shows "processDownload e mk now userId userFS name initialRequest wd
           = (Inr (Some (message (steps ds ! currentStep ds))), userFS, wd)"
proof -
  have k: "currentStep ds < length (steps ds)"
    "int (currentStep ds) \<noteq> int (length (steps ds)) - 1"
    using assms(2) by linarith+
  show ?thesis
    using assms(1) k by (simp add: processDownload_def Let_def)
qed

lemma getDownloadStatus_cleared:
  "getDownloadStatus (setDownloadStatus userId name None wd) userId name = None"
  by (simp add: getDownloadStatus_def setDownloadStatus_def)

lemma getDownloadStatus_set:
  "getDownloadStatus (setDownloadStatus userId name st wd) userId name = st"
  by (simp add: getDownloadStatus_def setDownloadStatus_def)

lemma fs_saves_setDownloadStatus:
  "fs_saves (setDownloadStatus userId name st wd) = fs_saves wd"
  by (simp add: setDownloadStatus_def)


section \<open>Recalculation: the claims\<close>



text \<open>
  Claim C10. If the duration that the module recomputes for the package is 0 or below
  100 ms, or the simulation is disabled, \<^verbatim>\<open>recalculateDownloadSteps\<close> on a state whose
  current step is an index of the plan only sets the current step to the last index.
  With that state in the registry, the next poll writes and saves the terminal effect
  and removes the entry.
\<close>

theorem recalculateDownloadSteps_fast_forward:
  assumes "\<not> enabled cfg \<or> 0 < speed cfg"
    and "module_time m cfg r name = (time, sz)"
    and "time = 0 \<or> \<not> enabled cfg \<or> time < 100"
    and "currentStep ds < length (steps ds)"
    and "starts_with ''update-'' name \<longrightarrow> os_version userFS \<noteq> None"
  shows "recalculateDownloadSteps m cfg r w name (Some ds)
           = Some (ds\<lparr>currentStep := length (steps ds) - 1\<rparr>)
       \<and> processDownload e mk now userId userFS name False
           (setDownloadStatus userId name (recalculateDownloadSteps m cfg r w name (Some ds)) wd)
           = (Inr (Some (terminal_message name ds userFS)), terminal_effect name ds userFS,
              setDownloadStatus userId name None
                (saveToDB userId (terminal_effect name ds userFS) wd))"
proof -
  let ?ds = "ds\<lparr>currentStep := length (steps ds) - 1\<rparr>"
  let ?wd = "setDownloadStatus userId name (Some ?ds) wd"
  have a: "recalculateDownloadSteps m cfg r w name (Some ds) = Some ?ds"
    using recalculate_fast_forward [OF assms(3,4)]
    by (simp add: recalculateDownloadSteps_def assms(2))
  have g: "getDownloadStatus ?wd userId name = Some ?ds"
    by (simp add: getDownloadStatus_set)
  have l: "Suc (currentStep ?ds) = length (steps ?ds)"
    using assms(4) by simp
  have "processDownload e mk now userId userFS name False ?wd
          = (Inr (Some (terminal_message name ?ds userFS)), terminal_effect name ?ds userFS,
             setDownloadStatus userId name None
               (saveToDB userId (terminal_effect name ?ds userFS) ?wd))"
    using processDownload_last_step [OF g l assms(5)] .
  moreover have "terminal_message name ?ds userFS = terminal_message name ds userFS"
    and "terminal_effect name ?ds userFS = terminal_effect name ds userFS"
    by (simp_all add: terminal_message_def terminal_effect_def)
  moreover have "setDownloadStatus userId name None (saveToDB userId fs ?wd)
                   = setDownloadStatus userId name None (saveToDB userId fs wd)" for fs
    by (simp add: setDownloadStatus_def saveToDB_def)
  ultimately show ?thesis using a by simp
qed


theorem recalculateDownloadSteps_fast_forward_witness:
  "recalculateDownloadSteps Network_js DEFAULT_CONFIG 0 zero_draws ''echo'' (Some (example_state 0))
     = Some (example_state 2)
   \<and> fst (processDownload example_env example_mk 0 ''u1'' example_fs ''echo'' False
        (setDownloadStatus ''u1'' ''echo''
           (recalculateDownloadSteps Network_js DEFAULT_CONFIG 0 zero_draws ''echo''
              (Some (example_state 0)))
           (example_world ''echo'' (example_state 0))))
     = Inr (Some (PackageInstalledSuccessfully ''echo''))"
proof -
  have t: "module_time Network_js DEFAULT_CONFIG 0 ''echo'' = (0, 472)"
    by (simp add: module_time_def calculateDownloadTime_def DEFAULT_CONFIG_def table_size_def
        PACKAGE_SIZES_def)
  have s: "\<not> enabled DEFAULT_CONFIG \<or> 0 < speed DEFAULT_CONFIG"
    by (simp add: DEFAULT_CONFIG_def)
  have k: "currentStep (example_state 0) < length (steps (example_state 0))"
    by (simp add: example_state_def example_steps_def)
  have u: "starts_with ''update-'' ''echo'' \<longrightarrow> os_version example_fs \<noteq> None"
    by (simp add: starts_with_def)
  have d: "(example_state 0)\<lparr>currentStep := length (steps (example_state 0)) - 1\<rparr> = example_state 2"
    by (simp add: example_state_def example_steps_def)
  have z: "(0 :: real) = 0 \<or> \<not> enabled DEFAULT_CONFIG \<or> (0 :: real) < 100"
    by simp
  note th = recalculateDownloadSteps_fast_forward [OF s t z k u, of zero_draws example_env
      example_mk 0 "''u1''" "example_world ''echo'' (example_state 0)"]
  have a: "recalculateDownloadSteps Network_js DEFAULT_CONFIG 0 zero_draws ''echo''
             (Some (example_state 0)) = Some (example_state 2)"
    using th [THEN conjunct1] by (simp only: d)
  have b: "fst (processDownload example_env example_mk 0 ''u1'' example_fs ''echo'' False
        (setDownloadStatus ''u1'' ''echo''
           (recalculateDownloadSteps Network_js DEFAULT_CONFIG 0 zero_draws ''echo''
              (Some (example_state 0)))
           (example_world ''echo'' (example_state 0))))
     = Inr (Some (PackageInstalledSuccessfully ''echo''))"
    by (simp only: th [THEN conjunct2] fst_conv) (simp add: terminal_message_def starts_with_def)
  from a b show ?thesis by (rule conjI)
qed

section \<open>Polling: the claims\<close>

text \<open>
  Claim C5 is not what the code does. \<^verbatim>\<open>processDownload\<close> reads the clock into a variable
  that it never uses and has no assignment that increases \<^verbatim>\<open>currentStep\<close>: by
  \<open>processDownload_before_last\<close>, a poll of a transfer that is not at its last index
  returns the message of the current step and leaves the filesystem, the registry and
  the saved data as they are, whatever the time. Here a poll at time 10000 of a
  transfer started at time 0, whose current step 0 waits 1500 ms, leaves the current
  step at 0.
\<close>

theorem processDownload_poll_after_wait:
  "lastUpdate (example_state 0) + wait (steps (example_state 0) ! currentStep (example_state 0))
     \<le> 10000
   \<and> processDownload example_env example_mk 10000 ''u1'' example_fs ''echo'' False
       (example_world ''echo'' (example_state 0))
     = (Inr (Some (message (steps (example_state 0) ! 0))), example_fs,
        example_world ''echo'' (example_state 0))
   \<and> getDownloadStatus (example_world ''echo'' (example_state 0)) ''u1'' ''echo''
     = Some (example_state 0)
   \<and> currentStep (example_state 0) = 0"
proof -
  have g: "getDownloadStatus (example_world ''echo'' (example_state 0)) ''u1'' ''echo''
             = Some (example_state 0)"
    by (simp add: getDownloadStatus_def example_world_def)
  have k: "Suc (currentStep (example_state 0)) < length (steps (example_state 0))"
    by (simp add: example_state_def example_steps_def)
  have c: "currentStep (example_state 0) = 0"
    by (simp add: example_state_def)
  have l: "lastUpdate (example_state 0)
             + wait (steps (example_state 0) ! currentStep (example_state 0)) \<le> 10000"
    by (simp add: example_state_def example_steps_def)
  show ?thesis
    using processDownload_before_last [OF g k, of example_env example_mk 10000 example_fs False]
      g c l by simp
qed

text \<open>
  Claim C6. For a transfer in the registry whose current step is the last index (and,
  for an update, a filesystem that has the leaf \<^verbatim>\<open>os_version\<close>), a poll returns the
  completion message, writes the terminal effect (the target version for an update, the
  package record otherwise), saves the filesystem once and removes the entry from the
  registry; a second poll on the result, at any time, finds no transfer, returns
  \<^verbatim>\<open>null\<close> and changes nothing.
\<close>

theorem processDownload_terminal_once:
  assumes "getDownloadStatus wd userId name = Some ds"
    and "Suc (currentStep ds) = length (steps ds)"
    and "starts_with ''update-'' name \<longrightarrow> os_version userFS \<noteq> None"
  shows "(case processDownload e mk now userId userFS name False wd of
            (res1, fs1, wd1) \<Rightarrow>
              res1 = Inr (Some (terminal_message name ds userFS))
              \<and> fs1 = terminal_effect name ds userFS
              \<and> (if starts_with ''update-'' name
                  then os_version fs1 = Some (targetVersion ds) \<and> pkgs fs1 = pkgs userFS
                  else pkgs fs1 (name @ ''.pkg'')
                         = Some (package_record name (content_or (os_version userFS) ''1.0.0'')
                                   (content_or (os_branch userFS) ''stable''))
                       \<and> os_version fs1 = os_version userFS)
              \<and> fs_saves wd1 = (userId, fs1) # fs_saves wd
              \<and> getDownloadStatus wd1 userId name = None
              \<and> processDownload e mk later userId fs1 name False wd1 = (Inr None, fs1, wd1))"
proof -
  let ?fs = "terminal_effect name ds userFS"
  let ?wd = "setDownloadStatus userId name None (saveToDB userId ?fs wd)"
  have p: "processDownload e mk now userId userFS name False wd
             = (Inr (Some (terminal_message name ds userFS)), ?fs, ?wd)"
    using processDownload_last_step [OF assms] .
  have g: "getDownloadStatus ?wd userId name = None"
    by (rule getDownloadStatus_cleared)
  have s: "fs_saves ?wd = (userId, ?fs) # fs_saves wd"
    by (simp add: fs_saves_setDownloadStatus saveToDB_def)
  have q: "processDownload e mk later userId ?fs name False ?wd = (Inr None, ?fs, ?wd)"
    using processDownload_absent [OF g] .
  have w: "if starts_with ''update-'' name
           then os_version ?fs = Some (targetVersion ds) \<and> pkgs ?fs = pkgs userFS
           else pkgs ?fs (name @ ''.pkg'')
                  = Some (package_record name (content_or (os_version userFS) ''1.0.0'')
                            (content_or (os_branch userFS) ''stable''))
                \<and> os_version ?fs = os_version userFS"
    by (simp add: terminal_effect_def)
  from g s q w show ?thesis
    by (simp add: p)
qed

theorem processDownload_terminal_once_witness:
  "fst (processDownload example_env example_mk 0 ''u1'' example_fs ''echo'' False
          (example_world ''echo'' (example_state 2)))
     = Inr (Some (PackageInstalledSuccessfully ''echo''))
   \<and> fs_saves (snd (snd (processDownload example_env example_mk 0 ''u1'' example_fs ''echo'' False
          (example_world ''echo'' (example_state 2)))))
     = [(''u1'', terminal_effect ''echo'' (example_state 2) example_fs)]
   \<and> getDownloadStatus (snd (snd (processDownload example_env example_mk 0 ''u1'' example_fs
          ''echo'' False (example_world ''echo'' (example_state 2))))) ''u1'' ''echo'' = None"
proof -
  have g: "getDownloadStatus (example_world ''echo'' (example_state 2)) ''u1'' ''echo''
             = Some (example_state 2)"
    by (simp add: getDownloadStatus_def example_world_def)
  have k: "Suc (currentStep (example_state 2)) = length (steps (example_state 2))"
    by (simp add: example_state_def example_steps_def)
  have u: "starts_with ''update-'' ''echo'' \<longrightarrow> os_version example_fs \<noteq> None"
    by (simp add: starts_with_def)
  have f: "fs_saves (example_world ''echo'' (example_state 2)) = []"
    by (simp add: example_world_def)
  show ?thesis
    using processDownload_terminal_once [OF g k u, of example_env example_mk 0 0]
    by (auto simp add: f terminal_message_def starts_with_def split: prod.splits)
qed

section \<open>The package command: the claims\<close>

text \<open>
  Claim C8. When the saved filesystem of the user holds \<^verbatim>\<open><name>.pkg\<close> under
  \<^verbatim>\<open>/sys/pkgs\<close>, \<^verbatim>\<open>pkg install <name>\<close> returns the already-installed message and leaves
  the registry and the saved filesystems as they are.
\<close>

theorem pkgCommand_install_already_installed:
  assumes "pkgName \<noteq> []"
    and "pkgs (loadFromDB wd userId (createFilesystem e)) (pkgName @ ''.pkg'') \<noteq> None"
  shows "pkgCommand e mk now userId (''install'' # pkgName # rest) wd
           = (Inr (Some (AlreadyInstalled pkgName)), wd)"
proof -
  let ?fs0 = "loadFromDB wd userId (createFilesystem e)"
  let ?fs = "if os_branch ?fs0 = None then ?fs0\<lparr>os_branch := Some (Str ''stable'')\<rparr> else ?fs0"
  have "pkgs ?fs (pkgName @ ''.pkg'') \<noteq> None"
    using assms(2) by simp
  then show ?thesis
    using assms(1) by (simp add: pkgCommand_def Let_def)
qed

theorem pkgCommand_install_already_installed_witness:
  "pkgCommand example_env example_mk 0 ''u1'' [''install'', ''echo''] installed_world
     = (Inr (Some (AlreadyInstalled ''echo'')), installed_world)"
proof -
  have n: "''echo'' \<noteq> []" by simp
  have i: "pkgs (loadFromDB installed_world ''u1'' (createFilesystem example_env))
             (''echo'' @ ''.pkg'') \<noteq> None"
    by (simp add: loadFromDB_def installed_world_def)
  show ?thesis
    using pkgCommand_install_already_installed [OF n i, of example_mk 0 "[]"] by simp
qed

lemma pkgCommand_upgrade_unfold:
  assumes "osBranches e b = Some v" and "v \<noteq> []"
  shows "pkgCommand e mk now userId [''upgrade'', ''--'' @ b] wd
           = pkg_upgrade_to e mk now userId b
               (let userFS0 = loadFromDB wd userId (createFilesystem e)
                in if os_branch userFS0 = None
                   then userFS0\<lparr>os_branch := Some (Str ''stable'')\<rparr> else userFS0) wd"
  using assms by (simp add: pkgCommand_def pkg_upgrade_def starts_with_def Let_def)

lemma pkg_upgrade_to_starts:
  assumes "osBranches e b = Some v"
    and "Str cv = (case os_version userFS of None \<Rightarrow> Str ''1.0.0'' | Some c \<Rightarrow> c)"
    and "os_branch userFS = Some cb"
    and "\<not> (cv = v \<and> cb = Str b)"
  shows "snd (pkg_upgrade_to e mk now userId b userFS wd)
           = setDownloadStatus userId (''update-'' @ v)
               (Some \<lparr>steps = mk userId (''update-'' @ v) (Some (getUpdateSize e v)),
                      currentStep = 0, lastUpdate = now, isUpdate = True,
                      targetVersion = Str v\<rparr>)
               (saveToDB userId (userFS\<lparr>os_version := Some (Str cv), os_branch := Some (Str b)\<rparr>)
                  wd)"
proof -
  have tv: "branch_version e b = Str v"
    using assms(1) by (simp add: branch_version_def)
  show ?thesis
  proof (cases "os_version userFS")
    case None
    then have "cv = ''1.0.0''" using assms(2) by simp
    then show ?thesis
      using None assms(3,4)
      by (auto simp add: pkg_upgrade_to_def tv startUpdateDownload_def to_text_def Let_def
          split: list.splits)
  next
    case (Some c)
    then have c: "c = Str cv" using assms(2) by simp
    have eq: "userFS\<lparr>os_version := Some (Str cv), os_branch := x\<rparr> = userFS\<lparr>os_branch := x\<rparr>"
      for x
      using Some c by (cases userFS) simp
    show ?thesis
      using Some c assms(3,4)
      by (auto simp add: eq pkg_upgrade_to_def tv startUpdateDownload_def to_text_def Let_def
          split: list.splits)
  qed
qed

text \<open>
  Claim C9. Let \<^verbatim>\<open>pkg upgrade --b\<close> name a known branch \<open>b\<close> with version \<open>v\<close>, let the version
  leaf of the saved filesystem hold a string \<open>oldVersion\<close> (\<^verbatim>\<open>1.0.0\<close> when the leaf is
  absent), and let the system not already be at \<open>v\<close> on \<open>b\<close>. Then the command saves the
  filesystem once, with the branch leaf at \<open>b\<close> and the version leaf still at
  \<open>oldVersion\<close>, and registers the update transfer at step 0. A later poll of that
  transfer before its last index saves nothing, and the poll at its last index is the
  one that saves the target version.
\<close>

theorem pkgCommand_upgrade_branch_first:
  assumes "osBranches e b = Some v" and "v \<noteq> []"
    and "userFS = loadFromDB wd userId (createFilesystem e)"
    and "Str oldVersion = (case os_version userFS of None \<Rightarrow> Str ''1.0.0'' | Some c \<Rightarrow> c)"
    and "oldBranch = (case os_branch userFS of None \<Rightarrow> Str ''stable'' | Some c \<Rightarrow> c)"
    and "\<not> (oldVersion = v \<and> oldBranch = Str b)"
    and "wd' = snd (pkgCommand e mk now userId [''upgrade'', ''--'' @ b] wd)"
  shows "fs_saves wd'
           = (userId, userFS\<lparr>os_version := Some (Str oldVersion), os_branch := Some (Str b)\<rparr>)
               # fs_saves wd
       \<and> os_branch (loadFromDB wd' userId dflt) = Some (Str b)
       \<and> os_version (loadFromDB wd' userId dflt) = Some (Str oldVersion)
       \<and> getDownloadStatus wd' userId (''update-'' @ v)
           = Some \<lparr>steps = mk userId (''update-'' @ v) (Some (getUpdateSize e v)),
                   currentStep = 0, lastUpdate = now, isUpdate = True, targetVersion = Str v\<rparr>
       \<and> (\<forall>w ds fs t. getDownloadStatus w userId (''update-'' @ v) = Some ds
              \<and> Suc (currentStep ds) < length (steps ds)
            \<longrightarrow> processDownload e mk t userId fs (''update-'' @ v) False w
                  = (Inr (Some (message (steps ds ! currentStep ds))), fs, w))
       \<and> (\<forall>w ds fs t. getDownloadStatus w userId (''update-'' @ v) = Some ds
              \<and> Suc (currentStep ds) = length (steps ds) \<and> os_version fs \<noteq> None
            \<longrightarrow> fs_saves (snd (snd (processDownload e mk t userId fs (''update-'' @ v) False w)))
                  = (userId, fs\<lparr>os_version := Some (targetVersion ds)\<rparr>) # fs_saves w)"
proof -
  let ?fs0 = "if os_branch userFS = None then userFS\<lparr>os_branch := Some (Str ''stable'')\<rparr>
              else userFS"
  let ?ds = "\<lparr>steps = mk userId (''update-'' @ v) (Some (getUpdateSize e v)),
              currentStep = 0, lastUpdate = now, isUpdate = True, targetVersion = Str v\<rparr>"
  have u: "pkgCommand e mk now userId [''upgrade'', ''--'' @ b] wd
             = pkg_upgrade_to e mk now userId b ?fs0 wd"
    using pkgCommand_upgrade_unfold [OF assms(1,2), of mk now userId wd]
    by (simp add: assms(3) Let_def)
  have v1: "Str oldVersion = (case os_version ?fs0 of None \<Rightarrow> Str ''1.0.0'' | Some c \<Rightarrow> c)"
    using assms(4) by simp
  have b1: "os_branch ?fs0 = Some oldBranch"
    using assms(5) by (cases "os_branch userFS") simp_all
  have w: "wd' = setDownloadStatus userId (''update-'' @ v) (Some ?ds)
                   (saveToDB userId
                      (?fs0\<lparr>os_version := Some (Str oldVersion), os_branch := Some (Str b)\<rparr>) wd)"
    using pkg_upgrade_to_starts [OF assms(1) v1 b1 assms(6), of mk now userId wd]
    by (simp only: assms(7) u)
  have f: "?fs0\<lparr>os_version := Some (Str oldVersion), os_branch := Some (Str b)\<rparr>
             = userFS\<lparr>os_version := Some (Str oldVersion), os_branch := Some (Str b)\<rparr>"
    by simp
  have s: "fs_saves wd'
             = (userId, userFS\<lparr>os_version := Some (Str oldVersion), os_branch := Some (Str b)\<rparr>)
                 # fs_saves wd"
    by (simp only: w f fs_saves_setDownloadStatus) (simp add: saveToDB_def)
  have l: "loadFromDB wd' userId dflt
             = userFS\<lparr>os_version := Some (Str oldVersion), os_branch := Some (Str b)\<rparr>"
    by (simp add: loadFromDB_def s)
  have g: "getDownloadStatus wd' userId (''update-'' @ v) = Some ?ds"
    by (simp only: w getDownloadStatus_set)
  have p1: "processDownload e mk t userId fs (''update-'' @ v) False w
              = (Inr (Some (message (steps ds ! currentStep ds))), fs, w)"
    if "getDownloadStatus w userId (''update-'' @ v) = Some ds
        \<and> Suc (currentStep ds) < length (steps ds)" for w ds fs t
    using that processDownload_before_last [of w userId "''update-'' @ v" ds e mk t fs False]
    by blast
  have p2: "fs_saves (snd (snd (processDownload e mk t userId fs (''update-'' @ v) False w)))
              = (userId, fs\<lparr>os_version := Some (targetVersion ds)\<rparr>) # fs_saves w"
    if h: "getDownloadStatus w userId (''update-'' @ v) = Some ds
        \<and> Suc (currentStep ds) = length (steps ds) \<and> os_version fs \<noteq> None" for w ds fs t
  proof -
    have "processDownload e mk t userId fs (''update-'' @ v) False w
            = (Inr (Some (terminal_message (''update-'' @ v) ds fs)),
               terminal_effect (''update-'' @ v) ds fs,
               setDownloadStatus userId (''update-'' @ v) None
                 (saveToDB userId (terminal_effect (''update-'' @ v) ds fs) w))"
      using h processDownload_last_step [of w userId "''update-'' @ v" ds fs e mk t] by blast
    then show ?thesis
      by (simp add: fs_saves_setDownloadStatus saveToDB_def terminal_effect_def starts_with_def)
  qed
  from s l g p1 p2 show ?thesis by simp
qed

theorem pkgCommand_upgrade_branch_first_witness:
  "fs_saves (snd (pkgCommand example_env example_mk 0 ''u1'' [''upgrade'', ''--'' @ ''unstable'']
       empty_world))
     = [(''u1'', example_fs\<lparr>os_version := Some (Str ''1.0.0''),
                            os_branch := Some (Str ''unstable'')\<rparr>)]
   \<and> targetVersion (the (getDownloadStatus
        (snd (pkgCommand example_env example_mk 0 ''u1'' [''upgrade'', ''--'' @ ''unstable'']
           empty_world)) ''u1'' (''update-'' @ ''1.0.0.2'')))
     = Str ''1.0.0.2''"
proof -
  have b: "osBranches example_env ''unstable'' = Some ''1.0.0.2''"
    by (simp add: example_env_def)
  have n: "''1.0.0.2'' \<noteq> []" by simp
  have f: "example_fs = loadFromDB empty_world ''u1'' (createFilesystem example_env)"
    by (simp add: loadFromDB_def empty_world_def example_env_def)
  have v: "Str ''1.0.0'' = (case os_version example_fs of None \<Rightarrow> Str ''1.0.0'' | Some c \<Rightarrow> c)"
    by (simp add: example_fs_def)
  have o: "Str ''stable'' = (case os_branch example_fs of None \<Rightarrow> Str ''stable'' | Some c \<Rightarrow> c)"
    by (simp add: example_fs_def)
  have d: "\<not> (''1.0.0'' = ''1.0.0.2'' \<and> Str ''stable'' = Str ''unstable'')"
    by simp
  show ?thesis
    using pkgCommand_upgrade_branch_first [OF b n f v o d refl, of example_mk 0]
    by (simp add: empty_world_def)
qed

section \<open>Version comparison: the claim\<close>

lemma part_or_zero_beyond:
  "length ps \<le> i \<Longrightarrow> part_or_zero ps i = 0"
  by (simp add: part_or_zero_def)

lemma compare_from_range: "compare_from xs ys i \<in> {- 1, 0, 1}"
  by (induction xs ys i rule: compare_from.induct) (simp add: Let_def)

lemma compare_from_zero:
  "compare_from xs ys i = 0 \<longleftrightarrow> (\<forall>k\<ge>i. part_or_zero xs k = part_or_zero ys k)"
proof (induction xs ys i rule: compare_from.induct)
  case (1 xs ys i)
  show ?case
  proof (cases "i < max (length xs) (length ys)")
    case False
    then have "part_or_zero xs k = part_or_zero ys k" if "i \<le> k" for k
      using that by (simp add: part_or_zero_beyond)
    then show ?thesis using False by simp
  next
    case True
    show ?thesis
    proof (cases "part_or_zero xs i = part_or_zero ys i")
      case False
      then show ?thesis using True by (auto simp add: Let_def)
    next
      case eq: True
      have "(\<forall>k\<ge>i. part_or_zero xs k = part_or_zero ys k)
              \<longleftrightarrow> (\<forall>k\<ge>Suc i. part_or_zero xs k = part_or_zero ys k)"
        using eq by (metis Suc_leD Suc_leI le_neq_implies_less)
      then show ?thesis
        using True eq "1.IH" [OF True refl refl] by (simp add: Let_def)
    qed
  qed
qed

lemma compare_from_less:
  "compare_from xs ys i = - 1
     \<longleftrightarrow> (\<exists>k\<ge>i. part_or_zero xs k < part_or_zero ys k
                \<and> (\<forall>j. i \<le> j \<and> j < k \<longrightarrow> part_or_zero xs j = part_or_zero ys j))"
proof (induction xs ys i rule: compare_from.induct)
  case (1 xs ys i)
  let ?R = "\<lambda>i. \<exists>k\<ge>i. part_or_zero xs k < part_or_zero ys k
                \<and> (\<forall>j. i \<le> j \<and> j < k \<longrightarrow> part_or_zero xs j = part_or_zero ys j)"
  show ?case
  proof (cases "i < max (length xs) (length ys)")
    case False
    then have "part_or_zero xs k = part_or_zero ys k" if "i \<le> k" for k
      using that by (simp add: part_or_zero_beyond)
    then have "\<not> ?R i" by auto
    then show ?thesis using False by simp
  next
    case True
    consider (gt) "part_or_zero xs i > part_or_zero ys i"
      | (lt) "part_or_zero xs i < part_or_zero ys i"
      | (eq) "part_or_zero xs i = part_or_zero ys i"
      by linarith
    then show ?thesis
    proof cases
      case gt
      have "\<not> ?R i"
      proof
        assume "?R i"
        then obtain k where k: "i \<le> k" "part_or_zero xs k < part_or_zero ys k"
          "\<forall>j. i \<le> j \<and> j < k \<longrightarrow> part_or_zero xs j = part_or_zero ys j" by blast
        show False
        proof (cases "k = i")
          case True
          then show False using k(2) gt by simp
        next
          case False
          then have "i < k" using k(1) by simp
          then have "part_or_zero xs i = part_or_zero ys i" using k(3) by simp
          then show False using gt by simp
        qed
      qed
      then show ?thesis using True gt by (simp add: Let_def)
    next
      case lt
      then have "?R i" by (intro exI [of _ i]) simp
      then show ?thesis using True lt by (simp add: Let_def)
    next
      case eq
      have "?R i \<longleftrightarrow> ?R (Suc i)"
      proof
        assume "?R i"
        then obtain k where k: "i \<le> k" "part_or_zero xs k < part_or_zero ys k"
          "\<forall>j. i \<le> j \<and> j < k \<longrightarrow> part_or_zero xs j = part_or_zero ys j" by blast
        then have "k \<noteq> i" using eq by auto
        then have "Suc i \<le> k" using k(1) by simp
        moreover have "\<forall>j. Suc i \<le> j \<and> j < k \<longrightarrow> part_or_zero xs j = part_or_zero ys j"
          using k(3) by simp
        ultimately show "?R (Suc i)" using k(2) by blast
      next
        assume "?R (Suc i)"
        then obtain k where k: "Suc i \<le> k" "part_or_zero xs k < part_or_zero ys k"
          "\<forall>j. Suc i \<le> j \<and> j < k \<longrightarrow> part_or_zero xs j = part_or_zero ys j" by blast
        have "part_or_zero xs j = part_or_zero ys j" if "i \<le> j \<and> j < k" for j
          using that k(3) eq by (cases "j = i") simp_all
        then show "?R i" using k(1,2) by (intro exI [of _ k]) simp
      qed
      then show ?thesis
        using True eq "1.IH" [OF True refl refl] by (simp add: Let_def)
    qed
  qed
qed

lemma compare_from_swap: "compare_from xs ys i = - compare_from ys xs i"
proof (induction xs ys i rule: compare_from.induct)
  case (1 xs ys i)
  show ?case
  proof (cases "i < max (length xs) (length ys)")
    case False
    then show ?thesis by (simp add: max.commute)
  next
    case True
    then have t: "i < max (length ys) (length xs)" by (simp add: max.commute)
    consider (gt) "part_or_zero xs i > part_or_zero ys i"
      | (lt) "part_or_zero xs i < part_or_zero ys i"
      | (eq) "part_or_zero xs i = part_or_zero ys i"
      by linarith
    then show ?thesis
    proof cases
      case gt
      then show ?thesis using True t by (simp add: Let_def)
    next
      case lt
      then show ?thesis using True t by (simp add: Let_def)
    next
      case eq
      then show ?thesis
        using True t "1.IH" [OF True refl refl] by (simp add: Let_def)
    qed
  qed
qed

lemma compare_from_greater:
  "compare_from xs ys i = 1
     \<longleftrightarrow> (\<exists>k\<ge>i. part_or_zero ys k < part_or_zero xs k
                \<and> (\<forall>j. i \<le> j \<and> j < k \<longrightarrow> part_or_zero xs j = part_or_zero ys j))"
proof -
  have "compare_from xs ys i = 1 \<longleftrightarrow> compare_from ys xs i = - 1"
    using compare_from_swap [of xs ys i] by linarith
  also have "\<dots> \<longleftrightarrow> (\<exists>k\<ge>i. part_or_zero ys k < part_or_zero xs k
                \<and> (\<forall>j. i \<le> j \<and> j < k \<longrightarrow> part_or_zero ys j = part_or_zero xs j))"
    by (rule compare_from_less)
  also have "\<dots> \<longleftrightarrow> (\<exists>k\<ge>i. part_or_zero ys k < part_or_zero xs k
                \<and> (\<forall>j. i \<le> j \<and> j < k \<longrightarrow> part_or_zero xs j = part_or_zero ys j))"
    by (simp add: eq_commute)
  finally show ?thesis .
qed

lemma split_on_nonempty: "split_on c s \<noteq> []"
  by (induction s) (auto split: list.splits)

lemma split_on_digits:
  "list_all (\<lambda>x. P x \<or> x = c) s \<Longrightarrow> list_all (list_all P) (split_on c s)"
proof (induction s)
  case Nil
  then show ?case by simp
next
  case (Cons x s)
  then have ih: "list_all (list_all P) (split_on c s)" by simp
  show ?case
  proof (cases "x = c")
    case True
    then show ?thesis using ih by simp
  next
    case False
    then have "P x" using Cons.prems by simp
    then show ?thesis
      using False ih split_on_nonempty [of c s]
      by (cases "split_on c s") simp_all
  qed
qed

lemma part_of_numeric_version:
  assumes "numeric_version v"
  shows "part_or_zero (map js_Number (split_on CHR ''.'' v)) i = component v i"
proof (cases "i < length (split_on CHR ''.'' v)")
  case False
  then show ?thesis by (simp add: part_or_zero_def component_def)
next
  case True
  have "list_all (list_all is_digit) (split_on CHR ''.'' v)"
    using assms by (simp add: numeric_version_def split_on_digits)
  then have "list_all is_digit (split_on CHR ''.'' v ! i)"
    using True by (simp add: list_all_length)
  then show ?thesis
    using True by (simp add: part_or_zero_def component_def js_Number_def)
qed

text \<open>
  Claim C7. For versions made of digits and dots, \<^verbatim>\<open>compareVersions\<close> returns \<open>-1\<close>, 0 or
  1; it returns 0 exactly when all components are equal, a missing trailing component
  counting as 0; it returns \<open>-1\<close> exactly when the first position at which the components
  differ has the lower number in the first version, and 1 exactly when it has the
  higher one; this for any number of components. In particular
  \<^verbatim>\<open>compareVersions("1.0.0.1", "1.0.0.2")\<close> is \<open>-1\<close> and \<^verbatim>\<open>compareVersions("1.2", "1.2.0")\<close>
  is 0.
\<close>

theorem compareVersions_order:
  assumes "numeric_version a" and "numeric_version b"
  shows "compareVersions a b \<in> {- 1, 0, 1}
       \<and> (compareVersions a b = 0 \<longleftrightarrow> (\<forall>i. component a i = component b i))
       \<and> (compareVersions a b = - 1
            \<longleftrightarrow> (\<exists>i. component a i < component b i
                      \<and> (\<forall>j<i. component a j = component b j)))
       \<and> (compareVersions a b = 1
            \<longleftrightarrow> (\<exists>i. component b i < component a i
                      \<and> (\<forall>j<i. component a j = component b j)))
       \<and> compareVersions ''1.0.0.1'' ''1.0.0.2'' = - 1
       \<and> compareVersions ''1.2'' ''1.2.0'' = 0"
proof -
  let ?xs = "map js_Number (split_on CHR ''.'' a)"
  let ?ys = "map js_Number (split_on CHR ''.'' b)"
  have pa: "part_or_zero ?xs i = component a i" for i
    using assms(1) by (rule part_of_numeric_version)
  have pb: "part_or_zero ?ys i = component b i" for i
    using assms(2) by (rule part_of_numeric_version)
  have r: "compareVersions a b \<in> {- 1, 0, 1}"
    unfolding compareVersions_def by (rule compare_from_range)
  have z: "compareVersions a b = 0 \<longleftrightarrow> (\<forall>i. component a i = component b i)"
    unfolding compareVersions_def by (simp only: compare_from_zero pa pb) simp
  have l: "compareVersions a b = - 1
            \<longleftrightarrow> (\<exists>i. component a i < component b i \<and> (\<forall>j<i. component a j = component b j))"
    unfolding compareVersions_def by (simp only: compare_from_less pa pb) simp
  have g: "compareVersions a b = 1
            \<longleftrightarrow> (\<exists>i. component b i < component a i \<and> (\<forall>j<i. component a j = component b j))"
    unfolding compareVersions_def by (simp only: compare_from_greater pa pb) simp
  have e1: "compareVersions ''1.0.0.1'' ''1.0.0.2'' = - 1"
    by code_simp
  have e2: "compareVersions ''1.2'' ''1.2.0'' = 0"
    by code_simp
  from r z l g e1 e2 show ?thesis by blast
qed

theorem compareVersions_order_witness:
  "numeric_version ''1.0.0.1'' \<and> numeric_version ''1.0.0.2''
   \<and> compareVersions ''1.0.0.1'' ''1.0.0.2'' = - 1
   \<and> (\<exists>i. component ''1.0.0.1'' i < component ''1.0.0.2'' i)"
proof -
  have a: "numeric_version ''1.0.0.1''" and b: "numeric_version ''1.0.0.2''"
    by (simp_all add: numeric_version_def is_digit_def)
  from compareVersions_order [OF a b] a b show ?thesis by blast
qed


end
